theory Spec2Isabelle
  imports Main
begin

section \<open>JavaScript values and errors\<close>

text \<open>
  The wrapper of \<^verbatim>\<open>getAdvancedContract\<close> (deploy-utils.ts) inspects the value that
  the underlying contract method resolves to with \<^verbatim>\<open>typeof\<close> and with property
  reads. Values are modelled just far enough for that: the primitive kinds, functions
  (identified by a label) and objects as property lists.
\<close>

datatype js_value =
    JUndefined
  | JNull
  | JBool bool
  | JNum int
  | JStr string
  | JFunction string
  | JObject "(string \<times> js_value) list"

text \<open>
  \<open>TypeError v p\<close>: reading property \<open>p\<close> of \<open>v\<close>, where \<open>v\<close> is
  \<^verbatim>\<open>null\<close> or \<^verbatim>\<open>undefined\<close>. \<open>Rejected r\<close>: an awaited promise of the
  node client (the original contract method, or the receipt query) rejected with reason
  \<open>r\<close>. \<open>NoMatchingFunction n\<close>: the interface has no function \<open>n\<close>.
  \<open>NotAFunction k\<close>: \<^verbatim>\<open>contract[k].bind\<close> is not a function.
  \<open>ReadOnlyProperty k\<close>: an assignment to the read-only property \<open>k\<close> (the
  module is strict code). \<open>InvalidArgument a\<close>: ethers refuses the argument \<open>a\<close>.
\<close>

datatype error =
    TypeError js_value string
  | Rejected js_value
  | NoMatchingFunction string
  | NotAFunction string
  | ReadOnlyProperty string
  | InvalidArgument string

fun typeof :: "js_value \<Rightarrow> string" where
  "typeof JUndefined = ''undefined''"
| "typeof JNull = ''object''"
| "typeof (JBool b) = ''boolean''"
| "typeof (JNum n) = ''number''"
| "typeof (JStr s) = ''string''"
| "typeof (JFunction f) = ''function''"
| "typeof (JObject ps) = ''object''"

text \<open>
  A property read \<^verbatim>\<open>v.p\<close>. It throws on \<^verbatim>\<open>null\<close> and \<^verbatim>\<open>undefined\<close>; an object
  yields the stored value or \<^verbatim>\<open>undefined\<close>. The wrapper reads only \<^verbatim>\<open>wait\<close> and
  \<^verbatim>\<open>hash\<close>, which no primitive and no plain function carries, so those reads yield
  \<^verbatim>\<open>undefined\<close>.
\<close>

fun get_prop :: "js_value \<Rightarrow> string \<Rightarrow> error + js_value" where
  "get_prop JUndefined p = Inl (TypeError JUndefined p)"
| "get_prop JNull p = Inl (TypeError JNull p)"
| "get_prop (JObject ps) p = Inr (case map_of ps p of None \<Rightarrow> JUndefined | Some v \<Rightarrow> v)"
| "get_prop v p = Inr JUndefined"

section \<open>The Hardhat runtime environment and the node\<close>

text \<open>
  \<^verbatim>\<open>opts.hre\<close> is typed \<^verbatim>\<open>any\<close>. The wrapper reads
  \<^verbatim>\<open>hre.deployConfig.gasPrice\<close> inside a \<^verbatim>\<open>try\<close>, so a missing
  \<^verbatim>\<open>deployConfig\<close> is a case of the model (\<open>None\<close>); a configuration without a
  gas price has \<open>gasPrice = None\<close> (\<^verbatim>\<open>undefined\<close>). The network object is taken
  to be present, as Hardhat always provides it.
\<close>

record deploy_config =
  gasPrice :: "int option"
  numDeployConfirmations :: int

record hre =
  deployConfig :: "deploy_config option"
  network_name :: string

record receipt =
  confirmations :: int

text \<open>
  The node client, as the wrapper sees it. \<open>fn nd k fnName args gasPrice\<close> is what the
  bound original method \<^verbatim>\<open>fn(...args, {gasPrice})\<close> settles to when it is the
  \<open>k\<close>-th submission of the run; \<open>getTransactionReceipt nd i h\<close> is what the
  \<open>i\<close>-th receipt query of the run settles to, asked for hash \<open>h\<close>. \<open>Inl r\<close> is
  a rejection with reason \<open>r\<close>, \<open>Inr None\<close> is the receipt \<^verbatim>\<open>null\<close>. The handle
  is taken to be connected to a provider, as submitting a transaction requires, so that
  \<^verbatim>\<open>contract.provider.getTransactionReceipt\<close> is a call to the node.
\<close>

record node =
  fn :: "nat \<Rightarrow> string \<Rightarrow> js_value list \<Rightarrow> int option \<Rightarrow> js_value + js_value"
  getTransactionReceipt :: "nat \<Rightarrow> js_value \<Rightarrow> js_value + receipt option"

text \<open>One call of the original method: its name, the caller's arguments and the
  \<^verbatim>\<open>gasPrice\<close> of the overrides object appended to them.\<close>

record submission =
  sub_fnName :: string
  sub_args :: "js_value list"
  sub_gasPrice :: "int option"

text \<open>
  Everything the wrapper does to the outside, in the order it happens: the submissions,
  the durations (ms) of the completed \<^verbatim>\<open>sleep\<close> calls, the hashes of the receipt
  queries, and the lines written with \<^verbatim>\<open>console.log\<close>.
\<close>

record world =
  submissions :: "submission list"
  sleeps :: "nat list"
  polled :: "js_value list"
  logs :: "string list"

section \<open>Contract handles\<close>

record fragment =
  frag_name :: string
  frag_constant :: bool

datatype signer = Signer string "string option"

text \<open>
  A function that is the value of a property of a handle: the method that the ethers
  constructor builds for a function key, a method inherited from the prototype of
  \<^verbatim>\<open>Contract\<close> (or of \<^verbatim>\<open>Object\<close>), or the replacement that
  \<^verbatim>\<open>getAdvancedContract\<close> installs for a key, which has captured the bound
  function it replaces.
\<close>

datatype js_function = Original string | Prototype string | Wrapper string js_function

text \<open>
  The \<^verbatim>\<open>signer\<close> and \<^verbatim>\<open>provider\<close> members of a handle: \<^verbatim>\<open>null\<close>, the
  object ethers stored, or a function that has taken the member's place.
\<close>

datatype 'a slot = Null | Value 'a | Replaced js_function

text \<open>
  A handle is an object, and \<^verbatim>\<open>contract[k]\<close> reads whatever property is named
  \<open>k\<close>: a member or a method. \<open>methods\<close> holds the own function-valued properties
  other than \<^verbatim>\<open>signer\<close> and \<^verbatim>\<open>provider\<close>, the most recent definition first;
  \<open>writable\<close> tells whether the own properties were defined writable.
\<close>

record contract =
  address :: string
  interface :: "fragment list"
  signer :: "signer slot"
  provider :: "string slot"
  methods :: "(string \<times> js_function) list"
  writable :: bool

text \<open>The other own members of a handle, all objects, and the methods a handle
  inherits.\<close>

definition object_members :: "string list" where
  "object_members =
     [''functions'', ''callStatic'', ''estimateGas'', ''populateTransaction'', ''filters'',
      ''resolvedAddress'', ''_runningEvents'', ''_wrappedEmits'']"

definition member_names :: "string list" where
  "member_names = [''address'', ''interface'', ''signer'', ''provider''] @ object_members"

definition prototype_methods :: "string list" where
  "prototype_methods =
     [''deployed'', ''_deployed'', ''fallback'', ''connect'', ''attach'', ''queryFilter'',
      ''on'', ''once'', ''emit'', ''listenerCount'', ''listeners'', ''removeAllListeners'',
      ''off'', ''removeListener'', ''_checkRunningEvents'', ''_getRunningEvent'',
      ''_wrapEvent'', ''_addEventListener'', ''_normalizeRunningEvent'',
      ''constructor'', ''hasOwnProperty'', ''isPrototypeOf'', ''propertyIsEnumerable'',
      ''toLocaleString'', ''toString'', ''valueOf'']"

text \<open>What \<^verbatim>\<open>contract[k]\<close> yields, as far as the code that follows tells values
  apart.\<close>

datatype looked_up = LUndefined | LNull | LNonFunction | LFunction js_function

definition get_member :: "contract \<Rightarrow> string \<Rightarrow> looked_up" where
  "get_member c k =
     (if k = ''address'' \<or> k = ''interface'' \<or> k \<in> set object_members then LNonFunction
      else if k = ''signer'' then
        (case signer c of Null \<Rightarrow> LNull | Value s \<Rightarrow> LNonFunction | Replaced m \<Rightarrow> LFunction m)
      else if k = ''provider'' then
        (case provider c of Null \<Rightarrow> LNull | Value p \<Rightarrow> LNonFunction | Replaced m \<Rightarrow> LFunction m)
      else
        (case map_of (methods c) k of
           Some m \<Rightarrow> LFunction m
         | None \<Rightarrow> if k \<in> set prototype_methods then LFunction (Prototype k) else LUndefined))"

text \<open>Whether \<open>k\<close> names an own property of the handle.\<close>

definition own_property :: "contract \<Rightarrow> string \<Rightarrow> bool" where
  "own_property c k \<longleftrightarrow> k \<in> set member_names \<or> map_of (methods c) k \<noteq> None"

text \<open>
  Storing the function \<open>m\<close> as property \<open>k\<close>. It is used only where the property
  is a function, \<^verbatim>\<open>null\<close> or missing, which the address, the interface and the object
  members never are.
\<close>

definition set_function :: "string \<Rightarrow> js_function \<Rightarrow> contract \<Rightarrow> contract" where
  "set_function k m c =
     (if k = ''signer'' then c\<lparr>signer := Replaced m\<rparr>
      else if k = ''provider'' then c\<lparr>provider := Replaced m\<rparr>
      else c\<lparr>methods := (k, m) # methods c\<rparr>)"

text \<open>\<^verbatim>\<open>Object.defineProperty\<close>: the native function, or the closure that forces
  \<^verbatim>\<open>prop.writable = true\<close> and then calls the function it captured.\<close>

datatype define_property = Native | ForceWritable define_property

fun forces_writable :: "define_property \<Rightarrow> bool" where
  "forces_writable Native = False"
| "forces_writable (ForceWritable d) = True"

text \<open>\<^verbatim>\<open>Object.keys(contract.functions)\<close>: the keys of the interface, each once.\<close>

definition function_keys :: "contract \<Rightarrow> string list" where
  "function_keys c = remdups (map frag_name (interface c))"

text \<open>
  The constructor of the ethers \<^verbatim>\<open>Contract\<close> class is library code outside the
  source file. It is modelled as ethers v5 behaves. It stores the interface, makes a
  signer the \<^verbatim>\<open>signer\<close> (and the signer's provider the \<^verbatim>\<open>provider\<close>), makes a
  bare provider the \<^verbatim>\<open>provider\<close>, refuses any other credential but \<^verbatim>\<open>null\<close>,
  creates the object members and stores the address, all through
  \<^verbatim>\<open>Object.defineProperty\<close> with \<^verbatim>\<open>writable: false\<close>. Then, for every function
  key \<open>k\<close>, it defines the method as property \<open>k\<close> of the handle if
  \<^verbatim>\<open>this[k] == null\<close>. Where \<open>k\<close> names a member that is \<^verbatim>\<open>null\<close>, this
  redefines an existing property: that succeeds when the property was made writable, and
  otherwise throws an error that the constructor swallows.
\<close>

definition define_method :: "bool \<Rightarrow> string \<Rightarrow> contract \<Rightarrow> contract" where
  "define_method force k c =
     (case get_member c k of
        LUndefined \<Rightarrow> set_function k (Original k) c
      | LNull \<Rightarrow> if force then set_function k (Original k) c else c
      | LNonFunction \<Rightarrow> c
      | LFunction m \<Rightarrow> c)"

datatype credential = CNull | CSigner signer | CProvider string | CFunction js_function

fun new_Contract ::
  "define_property \<Rightarrow> string \<Rightarrow> fragment list \<Rightarrow> credential \<Rightarrow> error + contract" where
  "new_Contract d a i (CFunction m) = Inl (InvalidArgument ''signerOrProvider'')"
| "new_Contract d a i CNull =
     Inr (fold (define_method (forces_writable d)) (remdups (map frag_name i))
       \<lparr>address = a, interface = i, signer = Null, provider = Null,
        methods = [], writable = forces_writable d\<rparr>)"
| "new_Contract d a i (CSigner (Signer k p)) =
     Inr (fold (define_method (forces_writable d)) (remdups (map frag_name i))
       \<lparr>address = a, interface = i, signer = Value (Signer k p),
        provider = (case p of None \<Rightarrow> Null | Some q \<Rightarrow> Value q),
        methods = [], writable = forces_writable d\<rparr>)"
| "new_Contract d a i (CProvider p) =
     Inr (fold (define_method (forces_writable d)) (remdups (map frag_name i))
       \<lparr>address = a, interface = i, signer = Null, provider = Value p,
        methods = [], writable = forces_writable d\<rparr>)"

text \<open>\<^verbatim>\<open>contract.signer || contract.provider\<close>: the signer unless it is
  \<^verbatim>\<open>null\<close>.\<close>

definition signer_or_provider :: "contract \<Rightarrow> credential" where
  "signer_or_provider c =
     (case signer c of
        Value s \<Rightarrow> CSigner s
      | Replaced m \<Rightarrow> CFunction m
      | Null \<Rightarrow>
          (case provider c of Null \<Rightarrow> CNull | Value p \<Rightarrow> CProvider p | Replaced m \<Rightarrow> CFunction m))"

text \<open>\<^verbatim>\<open>contract.interface.getFunction(fnName)\<close>; ethers throws when nothing matches.\<close>

definition getFunction :: "fragment list \<Rightarrow> string \<Rightarrow> error + fragment" where
  "getFunction i fnName =
     (case find (\<lambda>f. frag_name f = fnName) i of
        None \<Rightarrow> Inl (NoMatchingFunction fnName)
      | Some f \<Rightarrow> Inr f)"

section \<open>The wrapped method\<close>

datatype outcome =
    Polling nat
  | Returned js_value
  | Thrown error

definition maxTimeout :: nat where
  "maxTimeout = 120"

definition warning :: string where
  "warning =
     ''WARNING: Exceeded max timeout on transaction. Attempting to submit transaction again...''"

text \<open>\<^verbatim>\<open>opts.hre.deployConfig.gasPrice\<close>, which throws when there is no
  \<^verbatim>\<open>deployConfig\<close>.\<close>

definition read_gasPrice :: "hre \<Rightarrow> error + int option" where
  "read_gasPrice h =
     (case deployConfig h of
        None \<Rightarrow> Inl (TypeError JUndefined ''gasPrice'')
      | Some cfg \<Rightarrow> Inr (gasPrice cfg))"

text \<open>\<^verbatim>\<open>opts.hre.deployConfig.numDeployConfirmations\<close>, read outside any
  \<^verbatim>\<open>try\<close>.\<close>

definition read_numDeployConfirmations :: "hre \<Rightarrow> error + int" where
  "read_numDeployConfirmations h =
     (case deployConfig h of
        None \<Rightarrow> Inl (TypeError JUndefined ''numDeployConfirmations'')
      | Some cfg \<Rightarrow> Inr (numDeployConfirmations cfg))"

text \<open>The \<^verbatim>\<open>try\<close>/\<^verbatim>\<open>catch\<close> around the gas price: a failed read leaves
  \<^verbatim>\<open>gasPrice\<close> undefined.\<close>

definition configured_gasPrice :: "hre \<Rightarrow> int option" where
  "configured_gasPrice h = (case read_gasPrice h of Inl err \<Rightarrow> None | Inr g \<Rightarrow> g)"

text \<open>
  The test \<^verbatim>\<open>typeof tx !== 'object' || typeof tx.wait !== 'function'\<close>. The right
  operand is evaluated only when the left one is false, and its property read can throw.
\<close>

definition not_transaction :: "js_value \<Rightarrow> error + bool" where
  "not_transaction tx =
     (if typeof tx \<noteq> ''object'' then Inr True
      else case get_prop tx ''wait'' of
             Inl e \<Rightarrow> Inl e
           | Inr wt \<Rightarrow> Inr (typeof wt \<noteq> ''function''))"

text \<open>
  The replacement method installed for \<open>fnName\<close> (lines 105 to 152), applied to
  \<open>args\<close>, and its \<^verbatim>\<open>while (true)\<close> loop. \<^verbatim>\<open>contract[fnName](...args)\<close> on line
  144 is this replacement again, since the loop of line 103 has replaced every method
  before any of them can run. The loop need not end, so both functions take fuel: the
  number of loop rounds the run may still begin, counted over the whole call,
  resubmissions included. When the fuel is used up the run is suspended at the head of the
  loop and the outcome is \<open>Polling timeout\<close>, with the loop's counter; the world
  returned is the world at that moment. So \<open>wrapped n\<close> is the call observed for
  \<open>n\<close> rounds, and the call returns or throws exactly when some \<open>n\<close> gives
  \<open>Returned\<close> or \<open>Thrown\<close>.
\<close>

function wrapped ::
    "nat \<Rightarrow> hre \<Rightarrow> contract \<Rightarrow> node \<Rightarrow> string \<Rightarrow> js_value list \<Rightarrow> world \<Rightarrow> outcome \<times> world"
  and poll_loop ::
    "nat \<Rightarrow> hre \<Rightarrow> contract \<Rightarrow> node \<Rightarrow> string \<Rightarrow> js_value list \<Rightarrow> js_value \<Rightarrow> nat \<Rightarrow> world
      \<Rightarrow> outcome \<times> world"
where
  "wrapped fuel h c nd fnName args w =
     (let gasPrice0 = configured_gasPrice h in  \<comment> \<open>lines 109 to 114\<close>
      case getFunction (interface c) fnName of  \<comment> \<open>line 116\<close>
        Inl e \<Rightarrow> (Thrown e, w)
      | Inr frag \<Rightarrow>
          (let gasPrice1 = (if frag_constant frag then Some 0 else gasPrice0);  \<comment> \<open>line 117\<close>
               w1 = w\<lparr>submissions := submissions w @
                      [\<lparr>sub_fnName = fnName, sub_args = args, sub_gasPrice = gasPrice1\<rparr>]\<rparr>
           in case fn nd (length (submissions w)) fnName args gasPrice1 of  \<comment> \<open>lines 120 to 122\<close>
                Inl r \<Rightarrow> (Thrown (Rejected r), w1)
              | Inr tx \<Rightarrow>
                  (case not_transaction tx of  \<comment> \<open>lines 124 to 126\<close>
                     Inl e \<Rightarrow> (Thrown e, w1)
                   | Inr True \<Rightarrow> (Returned tx, w1)
                   | Inr False \<Rightarrow> poll_loop fuel h c nd fnName args tx 0 w1)))"  \<comment> \<open>line 133\<close>
| "poll_loop 0 h c nd fnName args tx timeout w = (Polling timeout, w)"
| "poll_loop (Suc fuel) h c nd fnName args tx timeout w =
     (let w1 = w\<lparr>sleeps := sleeps w @ [1000]\<rparr> in  \<comment> \<open>line 135\<close>
      case get_prop tx ''hash'' of
        Inl e \<Rightarrow> (Thrown e, w1)
      | Inr hash \<Rightarrow>
          (let w2 = w1\<lparr>polled := polled w1 @ [hash]\<rparr> in
           case getTransactionReceipt nd (length (polled w1)) hash of  \<comment> \<open>line 136\<close>
             Inl r \<Rightarrow> (Thrown (Rejected r), w2)
           | Inr None \<Rightarrow>  \<comment> \<open>line 137\<close>
               (let timeout1 = timeout + 1 in  \<comment> \<open>line 138\<close>
                if timeout1 > maxTimeout \<and> network_name h = ''kovan''  \<comment> \<open>line 139\<close>
                then wrapped fuel h c nd fnName args (w2\<lparr>logs := logs w2 @ [warning]\<rparr>)
                else poll_loop fuel h c nd fnName args tx timeout1 w2)
           | Inr (Some rc) \<Rightarrow>
               (case read_numDeployConfirmations h of  \<comment> \<open>line 147\<close>
                  Inl e \<Rightarrow> (Thrown e, w2)
                | Inr n \<Rightarrow>
                    if confirmations rc \<ge> n then (Returned tx, w2)  \<comment> \<open>line 149\<close>
                    else poll_loop fuel h c nd fnName args tx timeout w2)))"
  by pat_completeness auto
termination
  by (relation "measure (\<lambda>x. case x of
          Inl (fuel, _) \<Rightarrow> 2 * fuel + 1
        | Inr (fuel, _) \<Rightarrow> 2 * fuel)") auto

section \<open>getAdvancedContract\<close>

text \<open>
  Line 104, \<^verbatim>\<open>contract[fnName].bind(contract)\<close>: it throws unless the property is
  a function.
\<close>

definition bind_member :: "contract \<Rightarrow> string \<Rightarrow> error + js_function" where
  "bind_member c fnName =
     (case get_member c fnName of
        LUndefined \<Rightarrow> Inl (TypeError JUndefined ''bind'')
      | LNull \<Rightarrow> Inl (TypeError JNull ''bind'')
      | LNonFunction \<Rightarrow> Inl (NotAFunction fnName)
      | LFunction m \<Rightarrow> Inr m)"

text \<open>
  One round of the \<^verbatim>\<open>for\<close> loop (lines 104 and 105): bind the current value of
  \<^verbatim>\<open>contract[fnName]\<close>, then assign the replacement to \<^verbatim>\<open>contract[fnName]\<close>,
  whatever that property was: a method, or a member of the handle that holds a function.
  The assignment throws on an own property that is not writable. Invoked, the
  replacement for \<open>fnName\<close> behaves as \<open>wrapped\<close> does on \<open>fnName\<close>, the node's
  \<open>fn\<close> standing for the bound function.
\<close>

definition override :: "string \<Rightarrow> contract \<Rightarrow> error + contract" where
  "override fnName c =
     (case bind_member c fnName of
        Inl e \<Rightarrow> Inl e
      | Inr bound \<Rightarrow>
          if own_property c fnName \<and> \<not> writable c then Inl (ReadOnlyProperty fnName)
          else Inr (set_function fnName (Wrapper fnName bound) c))"

fun override_all :: "string list \<Rightarrow> contract \<Rightarrow> error + contract" where
  "override_all [] c = Inr c"
| "override_all (fnName # ks) c =
     (case override fnName c of
        Inl e \<Rightarrow> Inl e
      | Inr c' \<Rightarrow> override_all ks c')"

text \<open>
  The global \<^verbatim>\<open>Object.defineProperty\<close> is passed in and returned. When the
  constructor throws, line 100 is not reached and the global keeps the closure of line
  88; when the loop throws, the global has already been reset.
\<close>

definition getAdvancedContract ::
  "define_property \<Rightarrow> contract \<Rightarrow> (error + contract) \<times> define_property" where
  "getAdvancedContract Object_defineProperty opts_contract =
     (let def = Object_defineProperty;  \<comment> \<open>line 87\<close>
          g1 = ForceWritable def  \<comment> \<open>lines 88 to 91\<close>
      in case new_Contract g1 (address opts_contract) (interface opts_contract)
                (signer_or_provider opts_contract) of  \<comment> \<open>lines 93 to 97\<close>
           Inl e \<Rightarrow> (Inl e, g1)
         | Inr contract \<Rightarrow>
             (let g2 = def  \<comment> \<open>line 100\<close>
              in (override_all (function_keys contract) contract, g2)))"  \<comment> \<open>lines 103 to 155\<close>

section \<open>Notions used to state the properties\<close>

text \<open>The gas price of the overrides object, as lines 109 to 118 compute it for a
  function fragment.\<close>

definition resolved_gasPrice :: "hre \<Rightarrow> fragment \<Rightarrow> int option" where
  "resolved_gasPrice h frag = (if frag_constant frag then Some 0 else configured_gasPrice h)"

text \<open>The world after one submission, after one round of the loop (a sleep and a
  receipt query for hash \<open>hsh\<close>), and after the warning is logged.\<close>

definition submit :: "string \<Rightarrow> js_value list \<Rightarrow> int option \<Rightarrow> world \<Rightarrow> world" where
  "submit fnName args g w =
     w\<lparr>submissions := submissions w @
          [\<lparr>sub_fnName = fnName, sub_args = args, sub_gasPrice = g\<rparr>]\<rparr>"

definition poll_round :: "js_value \<Rightarrow> world \<Rightarrow> world" where
  "poll_round hsh w = w\<lparr>sleeps := sleeps w @ [1000], polled := polled w @ [hsh]\<rparr>"

definition log_warning :: "world \<Rightarrow> world" where
  "log_warning w = w\<lparr>logs := logs w @ [warning]\<rparr>"

text \<open>The \<open>i\<close>-th receipt query, asked for \<open>hsh\<close>, yields a receipt whose
  confirmations reach the configured \<^verbatim>\<open>numDeployConfirmations\<close>.\<close>

definition confirmed_at :: "hre \<Rightarrow> node \<Rightarrow> nat \<Rightarrow> js_value \<Rightarrow> bool" where
  "confirmed_at h nd i hsh =
     (case getTransactionReceipt nd i hsh of
        Inr (Some rc) \<Rightarrow>
          (case read_numDeployConfirmations h of
             Inr n \<Rightarrow> n \<le> confirmations rc
           | Inl e \<Rightarrow> False)
      | _ \<Rightarrow> False)"

text \<open>The value carries a \<^verbatim>\<open>wait\<close> function.\<close>

definition has_wait :: "js_value \<Rightarrow> bool" where
  "has_wait v = (case get_prop v ''wait'' of Inl e \<Rightarrow> False | Inr wt \<Rightarrow> typeof wt = ''function'')"



text \<open>The world after \<open>n\<close> rounds of the loop, all for hash \<open>hsh\<close>.\<close>

definition rounds :: "nat \<Rightarrow> js_value \<Rightarrow> world \<Rightarrow> world" where
  "rounds n hsh w =
     w\<lparr>sleeps := sleeps w @ replicate n 1000, polled := polled w @ replicate n hsh\<rparr>"

text \<open>
  What a run that has made the receipt queries \<open>ys\<close> (the first of them being query
  number \<open>i0\<close>) and has come to outcome \<open>out\<close> must satisfy: a query that met the
  threshold is the last one, and the run has returned the transaction whose hash was
  queried; and a run that has returned a transaction has made a query, the last of which
  met the threshold.
\<close>

definition run_confirms :: "hre \<Rightarrow> node \<Rightarrow> nat \<Rightarrow> js_value list \<Rightarrow> outcome \<Rightarrow> bool" where
  "run_confirms h nd i0 ys out \<longleftrightarrow>
     (\<forall>i \<in> set [0..<length ys]. confirmed_at h nd (i0 + i) (ys ! i) \<longrightarrow>
        Suc i = length ys \<and>
        (case out of
           Returned v \<Rightarrow> not_transaction v = Inr False \<and> get_prop v ''hash'' = Inr (ys ! i)
         | _ \<Rightarrow> False)) \<and>
     (case out of
        Returned v \<Rightarrow>
          not_transaction v = Inr False \<longrightarrow>
          ys \<noteq> [] \<and> confirmed_at h nd (i0 + (length ys - 1)) (last ys)
      | _ \<Rightarrow> True)"

text \<open>How many of the \<open>n\<close> receipt queries numbered from \<open>i\<close> on, asked for
  \<open>hsh\<close>, yield no receipt.\<close>

fun absent_count :: "node \<Rightarrow> js_value \<Rightarrow> nat \<Rightarrow> nat \<Rightarrow> nat" where
  "absent_count nd hsh i 0 = 0"
| "absent_count nd hsh i (Suc n) =
     (if getTransactionReceipt nd i hsh = Inr None then 1 else 0) + absent_count nd hsh (Suc i) n"

section \<open>Concrete scenarios\<close>

text \<open>A handle with one mutating and one read-only method, a pending transaction as
  the original method resolves to it, the empty world, and configurations and nodes for
  the scenarios evaluated below.\<close>

definition example_contract :: contract where
  "example_contract =
     \<lparr>address = ''0x4200000000000000000000000000000000000007'',
      interface = [\<lparr>frag_name = ''setValue'', frag_constant = False\<rparr>,
                   \<lparr>frag_name = ''getValue'', frag_constant = True\<rparr>],
      signer = Value (Signer ''deployer'' (Some ''rpc'')), provider = Value ''rpc'',
      methods = [(''getValue'', Original ''getValue''), (''setValue'', Original ''setValue'')],
      writable = False\<rparr>"


definition signer_named_read_only_contract :: contract where
  "signer_named_read_only_contract =
     \<lparr>address = ''0x4200000000000000000000000000000000000007'',
      interface = [\<lparr>frag_name = ''signer'', frag_constant = True\<rparr>],
      signer = Null, provider = Value ''rpc'',
      methods = [], writable = False\<rparr>"

definition example_tx :: js_value where
  "example_tx = JObject [(''hash'', JStr ''0xabc''), (''wait'', JFunction ''wait'')]"

definition empty_world :: world where
  "empty_world = \<lparr>submissions = [], sleeps = [], polled = [], logs = []\<rparr>"

definition hre_on :: "string \<Rightarrow> hre" where
  "hre_on net =
     \<lparr>deployConfig = Some \<lparr>gasPrice = Some 7, numDeployConfirmations = 2\<rparr>,
      network_name = net\<rparr>"

definition hre_without_config :: hre where
  "hre_without_config = \<lparr>deployConfig = None, network_name = ''goerli''\<rparr>"

definition node_with :: "(nat \<Rightarrow> receipt option) \<Rightarrow> node" where
  "node_with rs =
     \<lparr>fn = (\<lambda>k fnName args g. Inr example_tx),
      getTransactionReceipt = (\<lambda>i hsh. Inr (rs i))\<rparr>"

definition node_null :: node where
  "node_null =
     \<lparr>fn = (\<lambda>k fnName args g. Inr JNull),
      getTransactionReceipt = (\<lambda>i hsh. Inr None)\<rparr>"

text \<open>A node whose original method resolves to a plain value.\<close>

definition node_value :: node where
  "node_value =
     \<lparr>fn = (\<lambda>k fnName args g. Inr (JBool True)),
      getTransactionReceipt = (\<lambda>i hsh. Inr None)\<rparr>"

definition never_mined :: "nat \<Rightarrow> receipt option" where
  "never_mined i = None"

definition under_confirmed :: "nat \<Rightarrow> receipt option" where
  "under_confirmed i = Some \<lparr>confirmations = 1\<rparr>"

text \<open>The receipt sequence absent, absent, 1 confirmation, 2 confirmations.\<close>

definition scenario_receipts :: "nat \<Rightarrow> receipt option" where
  "scenario_receipts i =
     (if i < 2 then None
      else if i = 2 then Some \<lparr>confirmations = 1\<rparr>
      else Some \<lparr>confirmations = 2\<rparr>)"

section \<open>Case analysis of one step\<close>

declare wrapped.simps [simp del]

lemma not_transaction_FalseD:
  "not_transaction tx = Inr False \<Longrightarrow> \<exists>ps. tx = JObject ps"
  by (cases tx) (auto simp: not_transaction_def split: if_splits)

lemma not_transaction_throws:
  "not_transaction tx = Inl e \<Longrightarrow> tx = JNull \<and> e = TypeError JNull ''wait''"
  by (cases tx) (auto simp: not_transaction_def split: if_splits)

lemma get_prop_throws:
  "get_prop v p = Inl e \<Longrightarrow> e = TypeError v p"
  by (cases v) auto

lemma read_numDeployConfirmations_throws:
  "read_numDeployConfirmations h = Inl e \<Longrightarrow> e = TypeError JUndefined ''numDeployConfirmations''"
  by (auto simp: read_numDeployConfirmations_def split: option.splits)

lemma wrapped_cases [case_names no_function rejected threw plain tracked]:
  obtains
    e where "getFunction (interface c) fnName = Inl e"
      and "wrapped fuel h c nd fnName args w = (Thrown e, w)"
  | frag r where "getFunction (interface c) fnName = Inr frag"
      and "fn nd (length (submissions w)) fnName args (resolved_gasPrice h frag) = Inl r"
      and "wrapped fuel h c nd fnName args w =
             (Thrown (Rejected r), submit fnName args (resolved_gasPrice h frag) w)"
  | frag tx e where "getFunction (interface c) fnName = Inr frag"
      and "fn nd (length (submissions w)) fnName args (resolved_gasPrice h frag) = Inr tx"
      and "not_transaction tx = Inl e"
      and "wrapped fuel h c nd fnName args w =
             (Thrown e, submit fnName args (resolved_gasPrice h frag) w)"
  | frag tx where "getFunction (interface c) fnName = Inr frag"
      and "fn nd (length (submissions w)) fnName args (resolved_gasPrice h frag) = Inr tx"
      and "not_transaction tx = Inr True"
      and "wrapped fuel h c nd fnName args w =
             (Returned tx, submit fnName args (resolved_gasPrice h frag) w)"
  | frag tx where "getFunction (interface c) fnName = Inr frag"
      and "fn nd (length (submissions w)) fnName args (resolved_gasPrice h frag) = Inr tx"
      and "not_transaction tx = Inr False"
      and "wrapped fuel h c nd fnName args w =
             poll_loop fuel h c nd fnName args tx 0
               (submit fnName args (resolved_gasPrice h frag) w)"
proof (cases "getFunction (interface c) fnName")
  case (Inl e)
  then show ?thesis using that(1) by (simp add: wrapped.simps)
next
  case frag: (Inr frag)
  show ?thesis
  proof (cases "fn nd (length (submissions w)) fnName args (resolved_gasPrice h frag)")
    case (Inl r)
    with frag show ?thesis using that(2)
      by (simp add: wrapped.simps resolved_gasPrice_def submit_def)
  next
    case tx: (Inr tx)
    show ?thesis
    proof (cases "not_transaction tx")
      case (Inl e)
      with frag tx show ?thesis using that(3)
        by (simp add: wrapped.simps resolved_gasPrice_def submit_def)
    next
      case (Inr b)
      with frag tx show ?thesis using that(4,5)
        by (cases b) (simp_all add: wrapped.simps resolved_gasPrice_def submit_def)
    qed
  qed
qed

lemma poll_loop_cases [case_names no_hash rejected resubmit absent no_config confirmed unconfirmed]:
  obtains
    e where "get_prop tx ''hash'' = Inl e"
      and "poll_loop (Suc fuel) h c nd fnName args tx t w =
             (Thrown e, w\<lparr>sleeps := sleeps w @ [1000]\<rparr>)"
  | hsh r where "get_prop tx ''hash'' = Inr hsh"
      and "getTransactionReceipt nd (length (polled w)) hsh = Inl r"
      and "poll_loop (Suc fuel) h c nd fnName args tx t w = (Thrown (Rejected r), poll_round hsh w)"
  | hsh where "get_prop tx ''hash'' = Inr hsh"
      and "getTransactionReceipt nd (length (polled w)) hsh = Inr None"
      and "maxTimeout < Suc t" and "network_name h = ''kovan''"
      and "poll_loop (Suc fuel) h c nd fnName args tx t w =
             wrapped fuel h c nd fnName args (log_warning (poll_round hsh w))"
  | hsh where "get_prop tx ''hash'' = Inr hsh"
      and "getTransactionReceipt nd (length (polled w)) hsh = Inr None"
      and "Suc t \<le> maxTimeout \<or> network_name h \<noteq> ''kovan''"
      and "poll_loop (Suc fuel) h c nd fnName args tx t w =
             poll_loop fuel h c nd fnName args tx (Suc t) (poll_round hsh w)"
  | hsh rc e where "get_prop tx ''hash'' = Inr hsh"
      and "getTransactionReceipt nd (length (polled w)) hsh = Inr (Some rc)"
      and "read_numDeployConfirmations h = Inl e"
      and "poll_loop (Suc fuel) h c nd fnName args tx t w = (Thrown e, poll_round hsh w)"
  | hsh rc n where "get_prop tx ''hash'' = Inr hsh"
      and "getTransactionReceipt nd (length (polled w)) hsh = Inr (Some rc)"
      and "read_numDeployConfirmations h = Inr n" and "n \<le> confirmations rc"
      and "poll_loop (Suc fuel) h c nd fnName args tx t w = (Returned tx, poll_round hsh w)"
  | hsh rc n where "get_prop tx ''hash'' = Inr hsh"
      and "getTransactionReceipt nd (length (polled w)) hsh = Inr (Some rc)"
      and "read_numDeployConfirmations h = Inr n" and "confirmations rc < n"
      and "poll_loop (Suc fuel) h c nd fnName args tx t w =
             poll_loop fuel h c nd fnName args tx t (poll_round hsh w)"
proof (cases "get_prop tx ''hash''")
  case (Inl e)
  then show ?thesis using that(1) by simp
next
  case hsh: (Inr hsh)
  show ?thesis
  proof (cases "getTransactionReceipt nd (length (polled w)) hsh")
    case (Inl r)
    with hsh show ?thesis using that(2) by (simp add: poll_round_def)
  next
    case (Inr ro)
    show ?thesis
    proof (cases ro)
      case None
      with hsh Inr show ?thesis using that(3,4)
        by (cases "maxTimeout < Suc t \<and> network_name h = ''kovan''")
           (auto simp: poll_round_def log_warning_def)
    next
      case (Some rc)
      show ?thesis
      proof (cases "read_numDeployConfirmations h")
        case (Inl e)
        with hsh Inr Some show ?thesis using that(5) by (simp add: poll_round_def)
      next
        case n: (Inr n)
        with hsh Inr Some show ?thesis using that(6,7)
          by (cases "n \<le> confirmations rc") (auto simp: poll_round_def)
      qed
    qed
  qed
qed

lemma world_simps [simp]:
  "submissions (submit f a g w) = submissions w @ [\<lparr>sub_fnName = f, sub_args = a, sub_gasPrice = g\<rparr>]"
  "sleeps (submit f a g w) = sleeps w"
  "polled (submit f a g w) = polled w"
  "logs (submit f a g w) = logs w"
  "submissions (poll_round hsh w) = submissions w"
  "sleeps (poll_round hsh w) = sleeps w @ [1000]"
  "polled (poll_round hsh w) = polled w @ [hsh]"
  "logs (poll_round hsh w) = logs w"
  "submissions (log_warning w) = submissions w"
  "sleeps (log_warning w) = sleeps w"
  "polled (log_warning w) = polled w"
  "logs (log_warning w) = logs w @ [warning]"
  by (simp_all add: submit_def poll_round_def log_warning_def)

subsection \<open>No resubmission on a network other than kovan\<close>

lemma poll_loop_no_resubmission:
  assumes "network_name h \<noteq> ''kovan''"
  shows "logs (snd (poll_loop fuel h c nd fnName args tx t w)) = logs w \<and>
         submissions (snd (poll_loop fuel h c nd fnName args tx t w)) = submissions w"
proof (induction fuel arbitrary: t w)
  case 0
  show ?case by simp
next
  case (Suc fuel)
  show ?case
    by (cases rule: poll_loop_cases [where tx=tx and nd=nd and w=w and h=h and fuel=fuel and c=c and fnName=fnName and args=args and t=t])
       (use assms Suc in \<open>simp_all\<close>)
qed

lemma wrapped_no_resubmission:
  assumes "network_name h \<noteq> ''kovan''"
  shows "logs (snd (wrapped fuel h c nd fnName args w)) = logs w \<and>
         length (submissions (snd (wrapped fuel h c nd fnName args w))) \<le> Suc (length (submissions w))"
  by (cases rule: wrapped_cases [where c=c and fnName=fnName and fuel=fuel and h=h and nd=nd and args=args and w=w])
     (simp_all add: poll_loop_no_resubmission [OF assms])

subsection \<open>The failed gas price read is never what the call throws\<close>

lemma thrown_wrapped_if_loop:
  assumes "\<And>tx t w. fst (poll_loop fuel h c nd fnName args tx t w) \<noteq> Thrown (TypeError v ''gasPrice'')"
  shows "fst (wrapped fuel h c nd fnName args w) \<noteq> Thrown (TypeError v ''gasPrice'')"
proof (cases rule: wrapped_cases [where c=c and fnName=fnName and fuel=fuel and h=h and nd=nd and args=args and w=w])
  case (no_function e)
  then show ?thesis by (auto simp: getFunction_def split: option.splits)
next
  case (threw frag tx e)
  then show ?thesis by (auto dest: not_transaction_throws)
qed (simp_all add: assms)

lemma poll_loop_thrown:
  "fst (poll_loop fuel h c nd fnName args tx t w) \<noteq> Thrown (TypeError v ''gasPrice'')"
proof (induction fuel arbitrary: tx t w)
  case 0
  show ?case by simp
next
  case (Suc fuel)
  show ?case
  proof (cases rule: poll_loop_cases [where tx=tx and nd=nd and w=w and h=h and fuel=fuel and c=c and fnName=fnName and args=args and t=t])
    case (resubmit hsh)
    then show ?thesis using thrown_wrapped_if_loop [of fuel h c nd fnName args v, OF Suc] by simp
  qed (auto simp: Suc dest: get_prop_throws read_numDeployConfirmations_throws)
qed

lemma wrapped_thrown:
  "fst (wrapped fuel h c nd fnName args w) \<noteq> Thrown (TypeError v ''gasPrice'')"
  by (rule thrown_wrapped_if_loop) (rule poll_loop_thrown)

subsection \<open>Reading the hash of a transaction\<close>

lemma get_prop_hash:
  assumes "not_transaction tx = Inr False"
  obtains hsh where "get_prop tx ''hash'' = Inr hsh"
  using not_transaction_FalseD [OF assms] by auto

subsection \<open>Receipt queries that meet the threshold end the run\<close>

lemma run_confirms_iff:
  "run_confirms h nd i0 ys out \<longleftrightarrow>
     (\<forall>i<length ys. confirmed_at h nd (i0 + i) (ys ! i) \<longrightarrow>
        Suc i = length ys \<and>
        (\<exists>v. out = Returned v \<and> not_transaction v = Inr False \<and>
             get_prop v ''hash'' = Inr (ys ! i))) \<and>
     (\<forall>v. out = Returned v \<longrightarrow> not_transaction v = Inr False \<longrightarrow>
        ys \<noteq> [] \<and> confirmed_at h nd (i0 + (length ys - 1)) (last ys))"
  by (cases out) (auto simp: run_confirms_def)

lemma run_confirms_Nil:
  "(\<And>v. out = Returned v \<Longrightarrow> not_transaction v \<noteq> Inr False) \<Longrightarrow> run_confirms h nd i0 [] out"
  by (auto simp: run_confirms_iff)

lemma run_confirms_stop:
  "\<not> confirmed_at h nd i0 hsh \<Longrightarrow> (\<And>v. out \<noteq> Returned v) \<Longrightarrow> run_confirms h nd i0 [hsh] out"
  by (auto simp: run_confirms_iff)

lemma run_confirms_return:
  "confirmed_at h nd i0 hsh \<Longrightarrow> not_transaction tx = Inr False \<Longrightarrow>
   get_prop tx ''hash'' = Inr hsh \<Longrightarrow> run_confirms h nd i0 [hsh] (Returned tx)"
  by (auto simp: run_confirms_iff)

lemma run_confirms_Cons:
  assumes "\<not> confirmed_at h nd i0 hsh" and "run_confirms h nd (Suc i0) ys out"
  shows "run_confirms h nd i0 (hsh # ys) out"
  unfolding run_confirms_iff
proof (intro conjI allI impI)
  fix i assume i: "i < length (hsh # ys)" and c: "confirmed_at h nd (i0 + i) ((hsh # ys) ! i)"
  from assms(1) c obtain j where j: "i = Suc j" by (cases i) auto
  with i c have "j < length ys" "confirmed_at h nd (Suc i0 + j) (ys ! j)" by auto
  with assms(2) have l: "Suc j = length ys"
    and v: "\<exists>v. out = Returned v \<and> not_transaction v = Inr False \<and>
             get_prop v ''hash'' = Inr (ys ! j)"
    unfolding run_confirms_iff by blast+
  from j have nth: "(hsh # ys) ! i = ys ! j" by simp
  from j l show "Suc i = length (hsh # ys)" by simp
  from v show "\<exists>v. out = Returned v \<and> not_transaction v = Inr False \<and>
             get_prop v ''hash'' = Inr ((hsh # ys) ! i)"
    unfolding nth .
next
  fix v assume "out = Returned v" "not_transaction v = Inr False"
  with assms(2) have ys: "ys \<noteq> []" and "confirmed_at h nd (Suc i0 + (length ys - 1)) (last ys)"
    unfolding run_confirms_iff by blast+
  then show "hsh # ys \<noteq> []" and "confirmed_at h nd (i0 + (length (hsh # ys) - 1)) (last (hsh # ys))"
    by (auto simp: Suc_diff_Suc neq_Nil_conv)
qed

lemma wrapped_trace_if_loop:
  assumes "\<And>tx w. not_transaction tx = Inr False \<Longrightarrow>
     \<exists>ys. polled (snd (poll_loop fuel h c nd fnName args tx 0 w)) = polled w @ ys \<and>
          run_confirms h nd (length (polled w)) ys (fst (poll_loop fuel h c nd fnName args tx 0 w))"
  shows "\<exists>ys. polled (snd (wrapped fuel h c nd fnName args w)) = polled w @ ys \<and>
          run_confirms h nd (length (polled w)) ys (fst (wrapped fuel h c nd fnName args w))"
proof (cases rule: wrapped_cases [where c=c and fnName=fnName and fuel=fuel and h=h
             and nd=nd and args=args and w=w])
  case (tracked frag tx)
  from assms [OF tracked(3), of "submit fnName args (resolved_gasPrice h frag) w"]
  show ?thesis using tracked by simp
qed (auto intro!: run_confirms_Nil)

lemma poll_loop_trace:
  assumes "not_transaction tx = Inr False"
  shows "\<exists>ys. polled (snd (poll_loop fuel h c nd fnName args tx t w)) = polled w @ ys \<and>
          run_confirms h nd (length (polled w)) ys (fst (poll_loop fuel h c nd fnName args tx t w))"
  using assms
proof (induction fuel arbitrary: tx t w)
  case 0
  then show ?case by (auto intro!: run_confirms_Nil)
next
  case (Suc fuel)
  note tx = \<open>not_transaction tx = Inr False\<close>
  let ?i = "length (polled w)"
  have step: "\<exists>ys. polled w' = polled w @ ys \<and> run_confirms h nd ?i ys out"
    if "\<not> confirmed_at h nd ?i hsh"
      and "\<exists>ys. polled w' = polled (poll_round hsh w) @ ys \<and>
                run_confirms h nd (length (polled (poll_round hsh w))) ys out"
    for hsh w' out
  proof -
    from that(2) obtain ys where "polled w' = polled w @ hsh # ys"
        "run_confirms h nd (Suc ?i) ys out" by auto
    with that(1) show ?thesis using run_confirms_Cons by blast
  qed
  show ?case
  proof (cases rule: poll_loop_cases [where tx=tx and nd=nd and w=w and h=h and fuel=fuel
           and c=c and fnName=fnName and args=args and t=t])
    case (no_hash e)
    with tx show ?thesis by (auto elim: get_prop_hash)
  next
    case (rejected hsh r)
    then have "\<not> confirmed_at h nd ?i hsh" by (simp add: confirmed_at_def)
    with rejected show ?thesis by (auto intro!: run_confirms_stop)
  next
    case (resubmit hsh)
    then have n: "\<not> confirmed_at h nd ?i hsh" by (simp add: confirmed_at_def)
    have "\<exists>ys. polled (snd (wrapped fuel h c nd fnName args (log_warning (poll_round hsh w))))
                 = polled (log_warning (poll_round hsh w)) @ ys \<and>
          run_confirms h nd (length (polled (log_warning (poll_round hsh w)))) ys
             (fst (wrapped fuel h c nd fnName args (log_warning (poll_round hsh w))))"
      by (rule wrapped_trace_if_loop) (rule Suc.IH)
    with resubmit show ?thesis by (intro step [OF n]) simp
  next
    case (absent hsh)
    then have n: "\<not> confirmed_at h nd ?i hsh" by (simp add: confirmed_at_def)
    from Suc.IH [OF tx, of "Suc t" "poll_round hsh w"] absent
    show ?thesis by (intro step [OF n]) simp
  next
    case (no_config hsh rc e)
    then have "\<not> confirmed_at h nd ?i hsh" by (simp add: confirmed_at_def)
    with no_config show ?thesis by (auto intro!: run_confirms_stop)
  next
    case (confirmed hsh rc n)
    then have "confirmed_at h nd ?i hsh" by (simp add: confirmed_at_def)
    with confirmed tx show ?thesis by (auto intro!: run_confirms_return)
  next
    case (unconfirmed hsh rc n)
    then have n: "\<not> confirmed_at h nd ?i hsh" by (simp add: confirmed_at_def)
    from Suc.IH [OF tx, of t "poll_round hsh w"] unconfirmed
    show ?thesis by (intro step [OF n]) simp
  qed
qed

lemma wrapped_trace:
  "\<exists>ys. polled (snd (wrapped fuel h c nd fnName args w)) = polled w @ ys \<and>
          run_confirms h nd (length (polled w)) ys (fst (wrapped fuel h c nd fnName args w))"
  by (rule wrapped_trace_if_loop) (rule poll_loop_trace)

subsection \<open>Every submission of a run is the same call\<close>

lemma poll_loop_submissions:
  assumes "getFunction (interface c) fnName = Inr frag"
  shows "\<exists>n. submissions (snd (poll_loop fuel h c nd fnName args tx t w)) =
           submissions w @
           replicate n \<lparr>sub_fnName = fnName, sub_args = args,
                         sub_gasPrice = resolved_gasPrice h frag\<rparr>"
    (is "\<exists>n. ?S (poll_loop fuel h c nd fnName args tx t w) w n")
proof (induction fuel arbitrary: tx t w)
  case 0
  have "?S (poll_loop 0 h c nd fnName args tx t w) w 0" by simp
  then show ?case ..
next
  case (Suc fuel)
  have stop: "\<exists>n. ?S (out, poll_round hsh w) w n" for out hsh
  proof
    show "?S (out, poll_round hsh w) w 0" by simp
  qed
  show ?case
  proof (cases rule: poll_loop_cases [where tx=tx and nd=nd and w=w and h=h and fuel=fuel
           and c=c and fnName=fnName and args=args and t=t])
    case (no_hash e)
    then have "?S (poll_loop (Suc fuel) h c nd fnName args tx t w) w 0" by simp
    then show ?thesis ..
  next
    case (rejected hsh r)
    then show ?thesis using stop by simp
  next
    case (resubmit hsh)
    let ?w = "log_warning (poll_round hsh w)"
    let ?w1 = "submit fnName args (resolved_gasPrice h frag) ?w"
    show ?thesis
    proof (cases rule: wrapped_cases [where c=c and fnName=fnName and fuel=fuel and h=h
             and nd=nd and args=args and w="?w"])
      case (no_function e)
      with assms show ?thesis by simp
    next
      case (tracked frag' tx')
      with assms have eq: "poll_loop (Suc fuel) h c nd fnName args tx t w =
          poll_loop fuel h c nd fnName args tx' 0 ?w1"
        using resubmit by simp
      from Suc [of tx' 0 ?w1] obtain n where "?S (poll_loop fuel h c nd fnName args tx' 0 ?w1) ?w1 n" ..
      then have "?S (poll_loop (Suc fuel) h c nd fnName args tx t w) w (Suc n)"
        using eq by simp
      then show ?thesis ..
    next
      case (rejected frag' r)
      with assms resubmit have "?S (poll_loop (Suc fuel) h c nd fnName args tx t w) w (Suc 0)"
        by simp
      then show ?thesis ..
    next
      case (threw frag' tx' e)
      with assms resubmit have "?S (poll_loop (Suc fuel) h c nd fnName args tx t w) w (Suc 0)"
        by simp
      then show ?thesis ..
    next
      case (plain frag' tx')
      with assms resubmit have "?S (poll_loop (Suc fuel) h c nd fnName args tx t w) w (Suc 0)"
        by simp
      then show ?thesis ..
    qed
  next
    case (absent hsh)
    from Suc [of tx "Suc t" "poll_round hsh w"] show ?thesis using absent by simp
  next
    case (no_config hsh rc e)
    then show ?thesis using stop by simp
  next
    case (confirmed hsh rc n)
    then show ?thesis using stop by simp
  next
    case (unconfirmed hsh rc n)
    from Suc [of tx t "poll_round hsh w"] show ?thesis using unconfirmed by simp
  qed
qed

lemma wrapped_submissions:
  assumes "getFunction (interface c) fnName = Inr frag"
  shows "\<exists>n. submissions (snd (wrapped fuel h c nd fnName args w)) =
           submissions w @
           replicate (Suc n) \<lparr>sub_fnName = fnName, sub_args = args,
                         sub_gasPrice = resolved_gasPrice h frag\<rparr>"
    (is "\<exists>n. ?S n")
proof (cases rule: wrapped_cases [where c=c and fnName=fnName and fuel=fuel and h=h
             and nd=nd and args=args and w=w])
  case (no_function e)
  with assms show ?thesis by simp
next
  case (tracked frag' tx)
  let ?w1 = "submit fnName args (resolved_gasPrice h frag) w"
  from poll_loop_submissions [OF assms, of fuel h nd args tx 0 ?w1]
  obtain n where "submissions (snd (poll_loop fuel h c nd fnName args tx 0 ?w1)) =
           submissions ?w1 @
           replicate n \<lparr>sub_fnName = fnName, sub_args = args,
                         sub_gasPrice = resolved_gasPrice h frag\<rparr>" ..
  with tracked assms have "?S n" by simp
  then show ?thesis ..
next
  case (rejected frag' r)
  with assms have "?S 0" by simp
  then show ?thesis ..
next
  case (threw frag' tx' e)
  with assms have "?S 0" by simp
  then show ?thesis ..
next
  case (plain frag' tx')
  with assms have "?S 0" by simp
  then show ?thesis ..
qed

subsection \<open>Several rounds at once\<close>

lemma rounds_simps [simp]:
  "submissions (rounds n hsh w) = submissions w"
  "sleeps (rounds n hsh w) = sleeps w @ replicate n 1000"
  "polled (rounds n hsh w) = polled w @ replicate n hsh"
  "logs (rounds n hsh w) = logs w"
  by (simp_all add: rounds_def)

lemma rounds_0 [simp]: "rounds 0 hsh w = w"
  by (simp add: rounds_def)

lemma rounds_Suc: "rounds n hsh (poll_round hsh w) = rounds (Suc n) hsh w"
  by (simp add: rounds_def poll_round_def)

lemma poll_round_rounds: "poll_round hsh w = rounds (Suc 0) hsh w"
  by (simp add: rounds_def poll_round_def)

lemma absent_count_none:
  "(\<And>i. getTransactionReceipt nd i hsh \<noteq> Inr None) \<Longrightarrow> absent_count nd hsh i n = 0"
  by (induction n arbitrary: i) simp_all

lemma absent_count_le: "absent_count nd hsh i n \<le> n"
  by (induction n arbitrary: i) (simp_all add: le_SucI)

subsection \<open>The counter counts the absent receipts\<close>

lemma poll_loop_counter:
  assumes "get_prop tx ''hash'' = Inr hsh"
    and "network_name h \<noteq> ''kovan'' \<or>
         t + absent_count nd hsh (length (polled w)) fuel \<le> maxTimeout"
  shows "submissions (snd (poll_loop fuel h c nd fnName args tx t w)) = submissions w \<and>
         logs (snd (poll_loop fuel h c nd fnName args tx t w)) = logs w \<and>
         (\<forall>t'. fst (poll_loop fuel h c nd fnName args tx t w) = Polling t' \<longrightarrow>
               t' = t + absent_count nd hsh (length (polled w)) fuel)"
  using assms(2)
proof (induction fuel arbitrary: t w)
  case 0
  show ?case by simp
next
  case (Suc fuel)
  show ?case
  proof (cases rule: poll_loop_cases [where tx=tx and nd=nd and w=w and h=h and fuel=fuel
           and c=c and fnName=fnName and args=args and t=t])
    case (no_hash e)
    with assms(1) show ?thesis by simp
  next
    case (resubmit hsh')
    with assms(1) Suc.prems show ?thesis by simp
  next
    case (absent hsh')
    with assms(1) Suc.prems have "network_name h \<noteq> ''kovan'' \<or>
        Suc t + absent_count nd hsh (length (polled (poll_round hsh w))) fuel \<le> maxTimeout"
      by auto
    from Suc.IH [OF this] absent assms(1) show ?thesis by simp
  next
    case (unconfirmed hsh' rc n)
    with assms(1) Suc.prems have "network_name h \<noteq> ''kovan'' \<or>
        t + absent_count nd hsh (length (polled (poll_round hsh w))) fuel \<le> maxTimeout"
      by auto
    from Suc.IH [OF this] unconfirmed assms(1) show ?thesis by simp
  qed simp_all
qed

subsection \<open>Rounds that observe no receipt\<close>

lemma poll_loop_absent_rounds:
  assumes "get_prop tx ''hash'' = Inr hsh"
    and "\<forall>i<k. getTransactionReceipt nd (length (polled w) + i) hsh = Inr None"
    and "network_name h \<noteq> ''kovan'' \<or> t + k \<le> maxTimeout"
  shows "poll_loop (k + fuel) h c nd fnName args tx t w =
         poll_loop fuel h c nd fnName args tx (t + k) (rounds k hsh w)"
  using assms(2,3)
proof (induction k arbitrary: t w)
  case 0
  show ?case by simp
next
  case (Suc k)
  from Suc.prems(1) have first: "getTransactionReceipt nd (length (polled w)) hsh = Inr None"
    by (metis add.right_neutral zero_less_Suc)
  from Suc.prems(1) have rest:
    "\<forall>i<k. getTransactionReceipt nd (length (polled (poll_round hsh w)) + i) hsh = Inr None"
    by (auto simp: poll_round_def)
  have "poll_loop (Suc (k + fuel)) h c nd fnName args tx t w =
        poll_loop (k + fuel) h c nd fnName args tx (Suc t) (poll_round hsh w)"
    by (cases rule: poll_loop_cases [where tx=tx and nd=nd and w=w and h=h and fuel="k + fuel"
           and c=c and fnName=fnName and args=args and t=t])
       (use assms(1) first Suc.prems(2) in auto)
  also have "\<dots> = poll_loop fuel h c nd fnName args tx (Suc t + k) (rounds k hsh (poll_round hsh w))"
    using Suc.prems(2) by (intro Suc.IH rest) auto
  finally show ?case by (simp add: rounds_Suc)
qed

subsection \<open>The first sufficient receipt ends the run\<close>

lemma poll_loop_returns_at_first:
  assumes "get_prop tx ''hash'' = Inr hsh"
    and "read_numDeployConfirmations h = Inr N"
    and "\<forall>i<k. \<exists>ro. getTransactionReceipt nd (length (polled w) + i) hsh = Inr ro \<and>
               (\<forall>rc. ro = Some rc \<longrightarrow> confirmations rc < N)"
    and "getTransactionReceipt nd (length (polled w) + k) hsh = Inr (Some rc)"
    and "N \<le> confirmations rc"
    and "network_name h \<noteq> ''kovan'' \<or>
         t + absent_count nd hsh (length (polled w)) k \<le> maxTimeout"
    and "k < fuel"
  shows "poll_loop fuel h c nd fnName args tx t w = (Returned tx, rounds (Suc k) hsh w)"
  using assms(3,4,6,7)
proof (induction k arbitrary: t w fuel)
  case 0
  then obtain f where f: "fuel = Suc f" by (cases fuel) auto
  show ?case unfolding f
    by (cases rule: poll_loop_cases [where tx=tx and nd=nd and w=w and h=h and fuel=f
           and c=c and fnName=fnName and args=args and t=t])
       (use assms(1,2,5) "0.prems"(2) in \<open>auto simp: poll_round_rounds\<close>)
next
  case (Suc k)
  then obtain f where f: "fuel = Suc f" and kf: "k < f" by (cases fuel) auto
  let ?w = "poll_round hsh w"
  from Suc.prems(1) obtain ro where
    first: "getTransactionReceipt nd (length (polled w)) hsh = Inr ro"
      "\<forall>rc. ro = Some rc \<longrightarrow> confirmations rc < N"
    by (metis add.right_neutral zero_less_Suc)
  from Suc.prems(1) have rest:
    "\<forall>i<k. \<exists>ro. getTransactionReceipt nd (length (polled ?w) + i) hsh = Inr ro \<and>
               (\<forall>rc. ro = Some rc \<longrightarrow> confirmations rc < N)"
    by (auto simp: poll_round_def)
  from Suc.prems(2) have at:
    "getTransactionReceipt nd (length (polled ?w) + k) hsh = Inr (Some rc)" by simp
  show ?case
  proof (cases ro)
    case None
    with Suc.prems(3) first have g: "network_name h \<noteq> ''kovan'' \<or>
         Suc t + absent_count nd hsh (length (polled ?w)) k \<le> maxTimeout" by auto
    then have "network_name h \<noteq> ''kovan'' \<or> Suc t \<le> maxTimeout" by auto
    then have "poll_loop (Suc f) h c nd fnName args tx t w =
               poll_loop f h c nd fnName args tx (Suc t) ?w"
      by (cases rule: poll_loop_cases [where tx=tx and nd=nd and w=w and h=h and fuel=f
           and c=c and fnName=fnName and args=args and t=t])
         (use assms(1) first None in auto)
    also have "\<dots> = (Returned tx, rounds (Suc k) hsh ?w)"
      by (rule Suc.IH [OF rest at g kf])
    finally show ?thesis unfolding f by (simp add: rounds_Suc)
  next
    case (Some rc')
    with Suc.prems(3) first have g: "network_name h \<noteq> ''kovan'' \<or>
         t + absent_count nd hsh (length (polled ?w)) k \<le> maxTimeout" by auto
    have "poll_loop (Suc f) h c nd fnName args tx t w =
               poll_loop f h c nd fnName args tx t ?w"
      by (cases rule: poll_loop_cases [where tx=tx and nd=nd and w=w and h=h and fuel=f
           and c=c and fnName=fnName and args=args and t=t])
         (use assms(1,2) first Some in auto)
    also have "\<dots> = (Returned tx, rounds (Suc k) hsh ?w)"
      by (rule Suc.IH [OF rest at g kf])
    finally show ?thesis unfolding f by (simp add: rounds_Suc)
  qed
qed

subsection \<open>The steps of the wrapped method\<close>

lemma wrapped_tracked:
  assumes "getFunction (interface c) fnName = Inr frag"
    and "fn nd (length (submissions w)) fnName args (resolved_gasPrice h frag) = Inr tx"
    and "not_transaction tx = Inr False"
  shows "wrapped fuel h c nd fnName args w =
         poll_loop fuel h c nd fnName args tx 0 (submit fnName args (resolved_gasPrice h frag) w)"
  using assms by (simp add: wrapped.simps resolved_gasPrice_def submit_def)

lemma wrapped_plain:
  assumes "getFunction (interface c) fnName = Inr frag"
    and "fn nd (length (submissions w)) fnName args (resolved_gasPrice h frag) = Inr tx"
    and "not_transaction tx = Inr True"
  shows "wrapped fuel h c nd fnName args w =
         (Returned tx, submit fnName args (resolved_gasPrice h frag) w)"
  using assms by (simp add: wrapped.simps resolved_gasPrice_def submit_def)

subsection \<open>The scenarios\<close>

lemma example_facts:
  "getFunction (interface example_contract) ''setValue'' =
     Inr \<lparr>frag_name = ''setValue'', frag_constant = False\<rparr>"
  "getFunction (interface example_contract) ''getValue'' =
     Inr \<lparr>frag_name = ''getValue'', frag_constant = True\<rparr>"
  "not_transaction example_tx = Inr False"
  "get_prop example_tx ''hash'' = Inr (JStr ''0xabc'')"
  "read_numDeployConfirmations (hre_on net) = Inr 2"
  "resolved_gasPrice (hre_on net) \<lparr>frag_name = ''setValue'', frag_constant = False\<rparr> = Some 7"
  "resolved_gasPrice h \<lparr>frag_name = ''getValue'', frag_constant = True\<rparr> = Some 0"
  "resolved_gasPrice hre_without_config \<lparr>frag_name = ''setValue'', frag_constant = False\<rparr> = None"
  "network_name (hre_on net) = net"
  "fn (node_with rs) k fnName args g = Inr example_tx"
  "getTransactionReceipt (node_with rs) i hsh = Inr (rs i)"
  "polled empty_world = []" "submissions empty_world = []" "sleeps empty_world = []"
  "logs empty_world = []"
  by (simp_all add: example_contract_def getFunction_def example_tx_def not_transaction_def
        read_numDeployConfirmations_def hre_on_def resolved_gasPrice_def configured_gasPrice_def
        read_gasPrice_def hre_without_config_def node_with_def empty_world_def)

lemma scenario_run:
  "wrapped 4 (hre_on net) example_contract (node_with scenario_receipts) ''setValue'' [JNum 5]
     empty_world =
   (Returned example_tx,
    \<lparr>submissions = [\<lparr>sub_fnName = ''setValue'', sub_args = [JNum 5], sub_gasPrice = Some 7\<rparr>],
     sleeps = [1000, 1000, 1000, 1000],
     polled = [JStr ''0xabc'', JStr ''0xabc'', JStr ''0xabc'', JStr ''0xabc''],
     logs = []\<rparr>)"
proof -
  let ?w = "submit ''setValue'' [JNum 5] (Some 7) empty_world"
  have "wrapped 4 (hre_on net) example_contract (node_with scenario_receipts) ''setValue''
          [JNum 5] empty_world =
        poll_loop 4 (hre_on net) example_contract (node_with scenario_receipts) ''setValue''
          [JNum 5] example_tx 0 ?w"
    using wrapped_tracked [OF example_facts(1), of "node_with scenario_receipts" empty_world
        "[JNum 5]" "hre_on net" example_tx 4]
    by (simp add: example_facts)
  also have "\<dots> = (Returned example_tx, rounds (Suc 3) (JStr ''0xabc'') ?w)"
  proof (rule poll_loop_returns_at_first [OF example_facts(4) example_facts(5)])
    show "\<forall>i<3. \<exists>ro. getTransactionReceipt (node_with scenario_receipts)
              (length (polled ?w) + i) (JStr ''0xabc'') = Inr ro \<and>
              (\<forall>rc. ro = Some rc \<longrightarrow> confirmations rc < 2)"
      by (auto simp: example_facts scenario_receipts_def)
    show "getTransactionReceipt (node_with scenario_receipts) (length (polled ?w) + 3)
            (JStr ''0xabc'') = Inr (Some \<lparr>confirmations = 2\<rparr>)"
      by (simp add: example_facts scenario_receipts_def)
    have "absent_count (node_with scenario_receipts) (JStr ''0xabc'') (length (polled ?w)) 3 \<le> 3"
      by (rule absent_count_le)
    then show "network_name (hre_on net) \<noteq> ''kovan'' \<or>
        0 + absent_count (node_with scenario_receipts) (JStr ''0xabc'') (length (polled ?w)) 3
          \<le> maxTimeout"
      by (simp add: maxTimeout_def)
  qed simp_all
  also have "\<dots> = (Returned example_tx,
    \<lparr>submissions = [\<lparr>sub_fnName = ''setValue'', sub_args = [JNum 5], sub_gasPrice = Some 7\<rparr>],
     sleeps = [1000, 1000, 1000, 1000],
     polled = [JStr ''0xabc'', JStr ''0xabc'', JStr ''0xabc'', JStr ''0xabc''],
     logs = []\<rparr>)"
    by (simp add: rounds_def submit_def empty_world_def numeral_3_eq_3)
  finally show ?thesis .
qed

lemma never_mined_run:
  "wrapped n (hre_on ''goerli'') example_contract (node_with never_mined) ''setValue'' [JNum 5]
     empty_world =
   (Polling n, rounds n (JStr ''0xabc'') (submit ''setValue'' [JNum 5] (Some 7) empty_world))"
proof -
  let ?w = "submit ''setValue'' [JNum 5] (Some 7) empty_world"
  have "wrapped n (hre_on ''goerli'') example_contract (node_with never_mined) ''setValue''
          [JNum 5] empty_world =
        poll_loop (n + 0) (hre_on ''goerli'') example_contract (node_with never_mined) ''setValue''
          [JNum 5] example_tx 0 ?w"
    using wrapped_tracked [OF example_facts(1), of "node_with never_mined" empty_world
        "[JNum 5]" "hre_on ''goerli''" example_tx n]
    by (simp add: example_facts)
  also have "\<dots> = poll_loop 0 (hre_on ''goerli'') example_contract (node_with never_mined)
          ''setValue'' [JNum 5] example_tx (0 + n) (rounds n (JStr ''0xabc'') ?w)"
    by (rule poll_loop_absent_rounds [OF example_facts(4)])
       (simp_all add: example_facts never_mined_def)
  finally show ?thesis by simp
qed

lemma wrapped_returns_at_first:
  assumes "getFunction (interface c) fnName = Inr frag"
    and "fn nd (length (submissions w)) fnName args (resolved_gasPrice h frag) = Inr tx"
    and "not_transaction tx = Inr False"
    and "get_prop tx ''hash'' = Inr hsh"
    and "read_numDeployConfirmations h = Inr N"
    and "\<forall>i<k. \<exists>ro. getTransactionReceipt nd (length (polled w) + i) hsh = Inr ro \<and>
               (\<forall>r. ro = Some r \<longrightarrow> confirmations r < N)"
    and "getTransactionReceipt nd (length (polled w) + k) hsh = Inr (Some rc)"
    and "N \<le> confirmations rc"
    and "network_name h \<noteq> ''kovan'' \<or>
         absent_count nd hsh (length (polled w)) k \<le> maxTimeout"
    and "k < fuel"
  shows "wrapped fuel h c nd fnName args w =
         (Returned tx, rounds (Suc k) hsh (submit fnName args (resolved_gasPrice h frag) w))"
proof -
  let ?w = "submit fnName args (resolved_gasPrice h frag) w"
  have "wrapped fuel h c nd fnName args w = poll_loop fuel h c nd fnName args tx 0 ?w"
    by (rule wrapped_tracked [OF assms(1-3)])
  also have "\<dots> = (Returned tx, rounds (Suc k) hsh ?w)"
    by (rule poll_loop_returns_at_first [OF assms(4,5), where rc=rc])
       (use assms(6-10) in simp_all)
  finally show ?thesis .
qed

section \<open>The specified properties\<close>

subsection \<open>Confirmation\<close>

lemma wrapped_confirms_observed:
  fixes fuel h c nd fnName args w and N :: int
  defines "run \<equiv> wrapped fuel h c nd fnName args w"
  assumes "read_numDeployConfirmations h = Inr N"
  shows "(\<forall>v. fst run = Returned v \<and> not_transaction v = Inr False \<longrightarrow>
            length (polled w) < length (polled (snd run)) \<and>
            (\<exists>rc. getTransactionReceipt nd (length (polled (snd run)) - 1)
                     (last (polled (snd run))) = Inr (Some rc) \<and>
                  N \<le> confirmations rc)) \<and>
         (\<forall>j rc. length (polled w) \<le> j \<and> j < length (polled (snd run)) \<and>
            getTransactionReceipt nd j (polled (snd run) ! j) = Inr (Some rc) \<and>
            N \<le> confirmations rc \<longrightarrow>
            Suc j = length (polled (snd run)) \<and>
            (\<exists>tx. fst run = Returned tx \<and> not_transaction tx = Inr False \<and>
                  get_prop tx ''hash'' = Inr (polled (snd run) ! j)))"
proof -
  from wrapped_trace [of fuel h c nd fnName args w] obtain ys where
    ys: "polled (snd run) = polled w @ ys"
    and rc: "run_confirms h nd (length (polled w)) ys (fst run)"
    unfolding run_def by blast
  have conf: "confirmed_at h nd i hsh \<longleftrightarrow>
      (\<exists>rc. getTransactionReceipt nd i hsh = Inr (Some rc) \<and> N \<le> confirmations rc)" for i hsh
    using assms(2) by (auto simp: confirmed_at_def split: sum.splits option.splits)
  have a: "length (polled w) < length (polled (snd run)) \<and>
            (\<exists>rc. getTransactionReceipt nd (length (polled (snd run)) - 1)
                     (last (polled (snd run))) = Inr (Some rc) \<and>
                  N \<le> confirmations rc)"
    if "fst run = Returned v" "not_transaction v = Inr False" for v
  proof -
    from rc that have "ys \<noteq> []"
      and "confirmed_at h nd (length (polled w) + (length ys - 1)) (last ys)"
      unfolding run_confirms_iff by blast+
    moreover from \<open>ys \<noteq> []\<close> have "length (polled (snd run)) - 1 = length (polled w) + (length ys - 1)"
      by (cases ys) (simp_all add: ys)
    ultimately show ?thesis by (simp add: ys conf)
  qed
  have b: "Suc j = length (polled (snd run)) \<and>
            (\<exists>tx. fst run = Returned tx \<and> not_transaction tx = Inr False \<and>
                  get_prop tx ''hash'' = Inr (polled (snd run) ! j))"
    if "length (polled w) \<le> j" "j < length (polled (snd run))"
      "getTransactionReceipt nd j (polled (snd run) ! j) = Inr (Some rc')"
      "N \<le> confirmations rc'" for j rc'
  proof -
    from that(1) obtain i where i: "j = length (polled w) + i"
      using le_Suc_ex by blast
    with that(2) have l: "i < length ys" by (simp add: ys)
    from i have nth: "polled (snd run) ! j = ys ! i" by (simp add: ys)
    from that(3,4) have "confirmed_at h nd (length (polled w) + i) (ys ! i)"
      unfolding conf using nth i by auto
    with rc l have "Suc i = length ys \<and>
        (\<exists>v. fst run = Returned v \<and> not_transaction v = Inr False \<and>
             get_prop v ''hash'' = Inr (ys ! i))"
      unfolding run_confirms_iff by blast
    then show ?thesis unfolding nth by (simp add: ys i)
  qed
  from a b show ?thesis by blast
qed

text \<open>
  C1. Let \<open>N\<close> be the configured \<^verbatim>\<open>numDeployConfirmations\<close> (any integer, so in
  particular any \<open>N \<ge> 0\<close>), and take any node and any number of rounds.
  \<^item> The call has returned a transaction only if it has queried receipts and its most
    recent query yielded a receipt with at least \<open>N\<close> confirmations: never while the
    most recently observed receipt is absent or has fewer.
  \<^item> Every receipt query of the run that yields a receipt with at least \<open>N\<close>
    confirmations is the last query of the run, and at it the run has returned the
    transaction whose hash was queried: the first such observation ends the run.
  \<^item> The run does get there: if the submission resolves to a transaction, the queries
    before the \<open>k\<close>-th yield no receipt or too few confirmations, the \<open>k\<close>-th
    yields at least \<open>N\<close>, and the attempt is not given up before (the network is not
    kovan, or at most 120 of the earlier queries were absent), then with more than \<open>k\<close>
    rounds the call returns that transaction after exactly \<open>k + 1\<close> rounds.
\<close>

theorem confirmed_exactly_at_sufficient_receipt:
  fixes fuel h c nd fnName args w and N :: int
  defines "run \<equiv> wrapped fuel h c nd fnName args w"
  assumes "read_numDeployConfirmations h = Inr N"
  shows "(\<forall>v. fst run = Returned v \<and> not_transaction v = Inr False \<longrightarrow>
            length (polled w) < length (polled (snd run)) \<and>
            (\<exists>rc. getTransactionReceipt nd (length (polled (snd run)) - 1)
                     (last (polled (snd run))) = Inr (Some rc) \<and>
                  N \<le> confirmations rc)) \<and>
         (\<forall>j rc. length (polled w) \<le> j \<and> j < length (polled (snd run)) \<and>
            getTransactionReceipt nd j (polled (snd run) ! j) = Inr (Some rc) \<and>
            N \<le> confirmations rc \<longrightarrow>
            Suc j = length (polled (snd run)) \<and>
            (\<exists>tx. fst run = Returned tx \<and> not_transaction tx = Inr False \<and>
                  get_prop tx ''hash'' = Inr (polled (snd run) ! j))) \<and>
         (\<forall>frag tx hsh k rc.
            getFunction (interface c) fnName = Inr frag \<and>
            fn nd (length (submissions w)) fnName args (resolved_gasPrice h frag) = Inr tx \<and>
            not_transaction tx = Inr False \<and> get_prop tx ''hash'' = Inr hsh \<and>
            (\<forall>i<k. \<exists>ro. getTransactionReceipt nd (length (polled w) + i) hsh = Inr ro \<and>
                      (\<forall>r. ro = Some r \<longrightarrow> confirmations r < N)) \<and>
            getTransactionReceipt nd (length (polled w) + k) hsh = Inr (Some rc) \<and>
            N \<le> confirmations rc \<and>
            (network_name h \<noteq> ''kovan'' \<or>
             absent_count nd hsh (length (polled w)) k \<le> maxTimeout) \<and>
            k < fuel \<longrightarrow>
            run = (Returned tx,
                   rounds (Suc k) hsh (submit fnName args (resolved_gasPrice h frag) w)))"
proof -
  have c: "run = (Returned tx,
                   rounds (Suc k) hsh (submit fnName args (resolved_gasPrice h frag) w))"
    if "getFunction (interface c) fnName = Inr frag"
      "fn nd (length (submissions w)) fnName args (resolved_gasPrice h frag) = Inr tx"
      "not_transaction tx = Inr False" "get_prop tx ''hash'' = Inr hsh"
      "\<forall>i<k. \<exists>ro. getTransactionReceipt nd (length (polled w) + i) hsh = Inr ro \<and>
                      (\<forall>r. ro = Some r \<longrightarrow> confirmations r < N)"
      "getTransactionReceipt nd (length (polled w) + k) hsh = Inr (Some rc)"
      "N \<le> confirmations rc"
      "network_name h \<noteq> ''kovan'' \<or>
             absent_count nd hsh (length (polled w)) k \<le> maxTimeout"
      "k < fuel"
    for frag tx hsh k rc
    unfolding run_def
    by (rule wrapped_returns_at_first [OF that(1-4) assms(2) that(5-9)])
  show ?thesis
    using wrapped_confirms_observed [OF assms(2), of fuel c nd fnName args w]
    unfolding run_def [symmetric]
    using c by blast
qed

theorem confirmed_exactly_at_sufficient_receipt_witness:
  "read_numDeployConfirmations (hre_on ''goerli'') = Inr 2 \<and>
   getTransactionReceipt (node_with scenario_receipts) 3 (JStr ''0xabc'') =
     Inr (Some \<lparr>confirmations = 2\<rparr>) \<and>
   wrapped 9 (hre_on ''goerli'') example_contract (node_with scenario_receipts)
     ''setValue'' [JNum 5] empty_world =
   (Returned example_tx,
    rounds 4 (JStr ''0xabc'') (submit ''setValue'' [JNum 5] (Some 7) empty_world))"
proof -
  let ?frag = "\<lparr>frag_name = ''setValue'', frag_constant = False\<rparr>"
  let ?rc = "\<lparr>confirmations = 2\<rparr>"
  have before: "\<forall>i<3. \<exists>ro. getTransactionReceipt (node_with scenario_receipts)
                  (length (polled empty_world) + i) (JStr ''0xabc'') = Inr ro \<and>
                (\<forall>r. ro = Some r \<longrightarrow> confirmations r < 2)"
    by (auto simp: example_facts scenario_receipts_def)
  have "absent_count (node_with scenario_receipts) (JStr ''0xabc'')
          (length (polled empty_world)) 3 \<le> 3"
    by (rule absent_count_le)
  then have few: "network_name (hre_on ''goerli'') \<noteq> ''kovan'' \<or>
      absent_count (node_with scenario_receipts) (JStr ''0xabc'')
          (length (polled empty_world)) 3 \<le> maxTimeout"
    by (simp add: maxTimeout_def)
  have at: "getTransactionReceipt (node_with scenario_receipts)
            (length (polled empty_world) + 3) (JStr ''0xabc'') = Inr (Some ?rc)"
    by (simp add: example_facts scenario_receipts_def)
  have sub: "fn (node_with scenario_receipts) (length (submissions empty_world)) ''setValue''
            [JNum 5] (resolved_gasPrice (hre_on ''goerli'') ?frag) = Inr example_tx"
    by (simp add: example_facts)
  have "wrapped 9 (hre_on ''goerli'') example_contract (node_with scenario_receipts)
            ''setValue'' [JNum 5] empty_world =
          (Returned example_tx,
           rounds (Suc 3) (JStr ''0xabc'')
             (submit ''setValue'' [JNum 5] (resolved_gasPrice (hre_on ''goerli'') ?frag)
                empty_world))"
    by (rule confirmed_exactly_at_sufficient_receipt [OF example_facts(5),
          THEN conjunct2, THEN conjunct2, rule_format,
          of example_contract "''setValue''" ?frag _ empty_world "[JNum 5]" _ example_tx
             "JStr ''0xabc''" 3 ?rc])
       (use before few at sub example_facts(1,3,4) in simp)
  moreover have "Suc 3 = (4::nat)" by simp
  ultimately have "wrapped 9 (hre_on ''goerli'') example_contract (node_with scenario_receipts)
            ''setValue'' [JNum 5] empty_world =
          (Returned example_tx,
           rounds 4 (JStr ''0xabc'')
             (submit ''setValue'' [JNum 5] (resolved_gasPrice (hre_on ''goerli'') ?frag)
                empty_world))"
    by (simp only:)
  then show ?thesis
    by (simp add: example_facts scenario_receipts_def)
qed

subsection \<open>No resubmission off kovan\<close>

text \<open>
  C2. On every network whose name is not kovan, for every node and after any number of
  polling rounds (nothing bounds it by 120): nothing has been logged, at most the one
  original submission has been made, so the call is never resubmitted; and if the call
  has returned a transaction, then it has queried receipts and the last query yielded a
  receipt whose confirmations reach the configured threshold.
\<close>

theorem no_resubmission_off_kovan:
  fixes fuel h c nd fnName args w
  defines "run \<equiv> wrapped fuel h c nd fnName args w"
  assumes "network_name h \<noteq> ''kovan''"
  shows "logs (snd run) = logs w \<and>
         length (submissions (snd run)) \<le> Suc (length (submissions w)) \<and>
         (\<forall>v. fst run = Returned v \<and> not_transaction v = Inr False \<longrightarrow>
            length (polled w) < length (polled (snd run)) \<and>
            confirmed_at h nd (length (polled (snd run)) - 1) (last (polled (snd run))))"
proof -
  from wrapped_trace [of fuel h c nd fnName args w] obtain ys where
    ys: "polled (snd run) = polled w @ ys"
    and rc: "run_confirms h nd (length (polled w)) ys (fst run)"
    unfolding run_def by blast
  have "length (polled w) < length (polled (snd run)) \<and>
            confirmed_at h nd (length (polled (snd run)) - 1) (last (polled (snd run)))"
    if "fst run = Returned v" "not_transaction v = Inr False" for v
  proof -
    from rc that have "ys \<noteq> []"
      and "confirmed_at h nd (length (polled w) + (length ys - 1)) (last ys)"
      unfolding run_confirms_iff by blast+
    moreover from \<open>ys \<noteq> []\<close> have "length (polled (snd run)) - 1 = length (polled w) + (length ys - 1)"
      by (cases ys) (simp_all add: ys)
    ultimately show ?thesis by (simp add: ys)
  qed
  with wrapped_no_resubmission [OF assms(2), of fuel c nd fnName args w]
  show ?thesis unfolding run_def by blast
qed

theorem no_resubmission_off_kovan_witness:
  "network_name (hre_on ''goerli'') \<noteq> ''kovan'' \<and>
   fst (wrapped 300 (hre_on ''goerli'') example_contract (node_with never_mined)
          ''setValue'' [JNum 5] empty_world) = Polling 300 \<and>
   logs (snd (wrapped 300 (hre_on ''goerli'') example_contract (node_with never_mined)
          ''setValue'' [JNum 5] empty_world)) = [] \<and>
   length (submissions (snd (wrapped 300 (hre_on ''goerli'') example_contract
          (node_with never_mined) ''setValue'' [JNum 5] empty_world))) \<le> 1"
  using no_resubmission_off_kovan [where h="hre_on ''goerli''" and fuel=300
      and c=example_contract and nd="node_with never_mined" and fnName="''setValue''"
      and args="[JNum 5]" and w=empty_world]
  by (simp add: example_facts never_mined_run)

subsection \<open>Read-only calls\<close>

text \<open>
  C3. When the interface classifies the method as constant, every submission that
  invoking the wrapped method makes carries \<^verbatim>\<open>gasPrice\<close> 0, and at least one is made,
  whatever the deployment configuration says and however the run continues.
\<close>

theorem read_only_call_has_zero_gas_price:
  assumes "getFunction (interface c) fnName = Inr frag" and "frag_constant frag"
  shows "\<exists>n. submissions (snd (wrapped fuel h c nd fnName args w)) =
           submissions w @
           replicate (Suc n) \<lparr>sub_fnName = fnName, sub_args = args, sub_gasPrice = Some 0\<rparr>"
  using wrapped_submissions [OF assms(1), of fuel h nd args w] assms(2)
  by (simp add: resolved_gasPrice_def)

theorem read_only_call_has_zero_gas_price_witness:
  "getFunction (interface example_contract) ''getValue'' =
     Inr \<lparr>frag_name = ''getValue'', frag_constant = True\<rparr> \<and>
   configured_gasPrice (hre_on ''goerli'') = Some 7 \<and>
   (\<exists>n. submissions (snd (wrapped 3 (hre_on ''goerli'') example_contract
            (node_with never_mined) ''getValue'' [] empty_world)) =
         replicate (Suc n) \<lparr>sub_fnName = ''getValue'', sub_args = [], sub_gasPrice = Some 0\<rparr>)"
  using read_only_call_has_zero_gas_price [where c=example_contract and fnName="''getValue''"
      and frag="\<lparr>frag_name = ''getValue'', frag_constant = True\<rparr>" and fuel=3
      and h="hre_on ''goerli''" and nd="node_with never_mined" and args="[]" and w=empty_world]
  by (simp add: example_facts configured_gasPrice_def read_gasPrice_def hre_on_def)

subsection \<open>The four-poll scenario\<close>

text \<open>
  C4, as amended. With two required confirmations and the receipt sequence absent,
  absent, one confirmation, two confirmations, the call returns the transaction at the
  fourth receipt query, having completed exactly four sleeps of 1000 ms (one before each
  query); after three rounds it is still polling.
\<close>

theorem scenario_four_sleeps:
  assumes "getFunction (interface c) fnName = Inr frag"
    and "fn nd (length (submissions w)) fnName args (resolved_gasPrice h frag) = Inr tx"
    and "not_transaction tx = Inr False"
    and "get_prop tx ''hash'' = Inr hsh"
    and "read_numDeployConfirmations h = Inr 2"
    and "getTransactionReceipt nd (length (polled w)) hsh = Inr None"
    and "getTransactionReceipt nd (length (polled w) + 1) hsh = Inr None"
    and "getTransactionReceipt nd (length (polled w) + 2) hsh = Inr (Some ra)"
    and "confirmations ra = 1"
    and "getTransactionReceipt nd (length (polled w) + 3) hsh = Inr (Some rb)"
    and "confirmations rb = 2"
    and "4 \<le> fuel"
  shows "fst (wrapped fuel h c nd fnName args w) = Returned tx \<and>
         polled (snd (wrapped fuel h c nd fnName args w)) = polled w @ [hsh, hsh, hsh, hsh] \<and>
         sleeps (snd (wrapped fuel h c nd fnName args w)) = sleeps w @ [1000, 1000, 1000, 1000] \<and>
         fst (wrapped 3 h c nd fnName args w) = Polling 2"
proof -
  let ?w = "submit fnName args (resolved_gasPrice h frag) w"
  have before: "\<exists>ro. getTransactionReceipt nd (length (polled ?w) + i) hsh = Inr ro \<and>
               (\<forall>rc. ro = Some rc \<longrightarrow> confirmations rc < 2)" if "i < 3" for i
  proof -
    from that consider "i = 0" | "i = 1" | "i = 2" by linarith
    then show ?thesis using assms(6-9) by cases auto
  qed
  have "absent_count nd hsh (length (polled ?w)) 3 \<le> 3"
    by (rule absent_count_le)
  then have guard: "network_name h \<noteq> ''kovan'' \<or>
      0 + absent_count nd hsh (length (polled ?w)) 3 \<le> maxTimeout"
    by (simp add: maxTimeout_def)
  have "wrapped fuel h c nd fnName args w = poll_loop fuel h c nd fnName args tx 0 ?w"
    by (rule wrapped_tracked [OF assms(1-3)])
  also have "\<dots> = (Returned tx, rounds (Suc 3) hsh ?w)"
    by (rule poll_loop_returns_at_first [OF assms(4,5) _ _ _ guard, where rc=rb])
       (use before assms(10-12) in auto)
  finally have run: "wrapped fuel h c nd fnName args w = (Returned tx, rounds (Suc 3) hsh ?w)" .
  have "wrapped 3 h c nd fnName args w = poll_loop (2 + 1) h c nd fnName args tx 0 ?w"
    using wrapped_tracked [OF assms(1-3), of 3] by simp
  also have "\<dots> = poll_loop 1 h c nd fnName args tx (0 + 2) (rounds 2 hsh ?w)"
  proof (rule poll_loop_absent_rounds [OF assms(4)])
    show "\<forall>i<2. getTransactionReceipt nd (length (polled ?w) + i) hsh = Inr None"
    proof (intro allI impI)
      fix i :: nat assume "i < 2"
      then consider "i = 0" | "i = 1" by linarith
      then show "getTransactionReceipt nd (length (polled ?w) + i) hsh = Inr None"
        using assms(6,7) by cases auto
    qed
  qed (simp add: maxTimeout_def)
  also have "\<dots> = poll_loop 0 h c nd fnName args tx 2 (poll_round hsh (rounds 2 hsh ?w))"
    by (cases rule: poll_loop_cases [where tx=tx and nd=nd and w="rounds 2 hsh ?w" and h=h
           and fuel=0 and c=c and fnName=fnName and args=args and t=2])
       (use assms(4,5,8,9) in auto)
  finally have "fst (wrapped 3 h c nd fnName args w) = Polling 2" by simp
  with run show ?thesis by (simp add: numeral_3_eq_3)
qed

theorem scenario_four_sleeps_witness:
  "read_numDeployConfirmations (hre_on ''goerli'') = Inr 2 \<and>
   fst (wrapped 7 (hre_on ''goerli'') example_contract (node_with scenario_receipts)
          ''setValue'' [JNum 5] empty_world) = Returned example_tx \<and>
   sleeps (snd (wrapped 7 (hre_on ''goerli'') example_contract (node_with scenario_receipts)
          ''setValue'' [JNum 5] empty_world)) = [1000, 1000, 1000, 1000] \<and>
   fst (wrapped 3 (hre_on ''goerli'') example_contract (node_with scenario_receipts)
          ''setValue'' [JNum 5] empty_world) = Polling 2"
  using scenario_four_sleeps [where c=example_contract and fnName="''setValue''"
      and frag="\<lparr>frag_name = ''setValue'', frag_constant = False\<rparr>"
      and nd="node_with scenario_receipts" and w=empty_world and args="[JNum 5]"
      and h="hre_on ''goerli''" and tx=example_tx and hsh="JStr ''0xabc''"
      and ra="\<lparr>confirmations = 1\<rparr>" and rb="\<lparr>confirmations = 2\<rparr>" and fuel=7]
  by (simp add: example_facts scenario_receipts_def)

text \<open>
  C4, as stated, fails: in that scenario the run that returns at the fourth query has
  slept four times, not three.
\<close>

theorem scenario_three_sleeps_counterexample:
  "fst (wrapped 4 (hre_on ''goerli'') example_contract (node_with scenario_receipts)
          ''setValue'' [JNum 5] empty_world) = Returned example_tx \<and>
   length (polled (snd (wrapped 4 (hre_on ''goerli'') example_contract
          (node_with scenario_receipts) ''setValue'' [JNum 5] empty_world))) = 4 \<and>
   sleeps (snd (wrapped 4 (hre_on ''goerli'') example_contract
          (node_with scenario_receipts) ''setValue'' [JNum 5] empty_world)) =
     [1000, 1000, 1000, 1000] \<and>
   length (sleeps (snd (wrapped 4 (hre_on ''goerli'') example_contract
          (node_with scenario_receipts) ''setValue'' [JNum 5] empty_world))) \<noteq> 3"
  by (simp add: scenario_run)

subsection \<open>Resubmission on kovan\<close>

text \<open>
  C5. On kovan, when the submission resolves to a transaction and the first 121 receipt
  queries yield no receipt, then the 121st round logs the warning and invokes the wrapped
  method again with the same method name and arguments, and the whole call continues as
  that new invocation does (its outcome is the call's outcome; the stalled transaction
  plays no further part). Up to round 120 the call is still polling and has logged
  nothing.
\<close>

theorem kovan_resubmits_at_round_121:
  assumes "network_name h = ''kovan''"
    and "getFunction (interface c) fnName = Inr frag"
    and "fn nd (length (submissions w)) fnName args (resolved_gasPrice h frag) = Inr tx"
    and "not_transaction tx = Inr False"
    and "get_prop tx ''hash'' = Inr hsh"
    and "\<forall>i<121. getTransactionReceipt nd (length (polled w) + i) hsh = Inr None"
  shows "wrapped (121 + fuel) h c nd fnName args w =
           wrapped fuel h c nd fnName args
             (log_warning (rounds 121 hsh (submit fnName args (resolved_gasPrice h frag) w))) \<and>
         (\<forall>k\<le>120. wrapped k h c nd fnName args w =
            (Polling k, rounds k hsh (submit fnName args (resolved_gasPrice h frag) w)))"
proof -
  let ?w = "submit fnName args (resolved_gasPrice h frag) w"
  have absent: "\<forall>i<k. getTransactionReceipt nd (length (polled ?w) + i) hsh = Inr None"
    if "k \<le> 121" for k
    using assms(6) that by auto
  have "wrapped (121 + fuel) h c nd fnName args w =
        poll_loop (120 + Suc fuel) h c nd fnName args tx 0 ?w"
    using wrapped_tracked [OF assms(2-4), of "121 + fuel"] by simp
  also have "\<dots> = poll_loop (Suc fuel) h c nd fnName args tx (0 + 120) (rounds 120 hsh ?w)"
    by (rule poll_loop_absent_rounds [OF assms(5)])
       (use absent [of 120] in \<open>simp_all add: maxTimeout_def\<close>)
  also have "\<dots> = wrapped fuel h c nd fnName args
                    (log_warning (poll_round hsh (rounds 120 hsh ?w)))"
    by (cases rule: poll_loop_cases [where tx=tx and nd=nd and w="rounds 120 hsh ?w" and h=h
           and fuel=fuel and c=c and fnName=fnName and args=args and t="0 + 120"])
       (use assms(1,5,6) in \<open>auto simp: maxTimeout_def\<close>)
  also have "poll_round hsh (rounds 120 hsh ?w) = rounds 121 hsh ?w"
    by (simp add: rounds_def poll_round_def replicate_append_same
          flip: replicate_Suc [of 120, simplified])
  finally have first: "wrapped (121 + fuel) h c nd fnName args w =
           wrapped fuel h c nd fnName args (log_warning (rounds 121 hsh ?w))" .
  have "wrapped k h c nd fnName args w = (Polling k, rounds k hsh ?w)" if "k \<le> 120" for k
  proof -
    have "wrapped k h c nd fnName args w = poll_loop (k + 0) h c nd fnName args tx 0 ?w"
      using wrapped_tracked [OF assms(2-4), of k] by simp
    also have "\<dots> = poll_loop 0 h c nd fnName args tx (0 + k) (rounds k hsh ?w)"
      by (rule poll_loop_absent_rounds [OF assms(5)])
         (use that absent [of k] in \<open>simp_all add: maxTimeout_def\<close>)
    finally show ?thesis by simp
  qed
  with first show ?thesis by blast
qed

theorem kovan_resubmits_at_round_121_witness:
  "network_name (hre_on ''kovan'') = ''kovan'' \<and>
   wrapped 121 (hre_on ''kovan'') example_contract (node_with never_mined) ''setValue''
     [JNum 5] empty_world =
   (Polling 0,
    \<lparr>submissions = [\<lparr>sub_fnName = ''setValue'', sub_args = [JNum 5], sub_gasPrice = Some 7\<rparr>,
                    \<lparr>sub_fnName = ''setValue'', sub_args = [JNum 5], sub_gasPrice = Some 7\<rparr>],
     sleeps = replicate 121 1000,
     polled = replicate 121 (JStr ''0xabc''),
     logs = [warning]\<rparr>) \<and>
   wrapped 120 (hre_on ''kovan'') example_contract (node_with never_mined) ''setValue''
     [JNum 5] empty_world =
   (Polling 120,
    \<lparr>submissions = [\<lparr>sub_fnName = ''setValue'', sub_args = [JNum 5], sub_gasPrice = Some 7\<rparr>],
     sleeps = replicate 120 1000,
     polled = replicate 120 (JStr ''0xabc''),
     logs = []\<rparr>)"
proof -
  let ?w = "log_warning (rounds 121 (JStr ''0xabc'')
              (submit ''setValue'' [JNum 5] (Some 7) empty_world))"
  have again: "wrapped 0 (hre_on ''kovan'') example_contract (node_with never_mined) ''setValue''
      [JNum 5] ?w = (Polling 0, submit ''setValue'' [JNum 5] (Some 7) ?w)"
    using wrapped_tracked [OF example_facts(1), of "node_with never_mined" ?w
        "[JNum 5]" "hre_on ''kovan''" example_tx 0]
    by (simp add: example_facts)
  show ?thesis
    using kovan_resubmits_at_round_121 [where h="hre_on ''kovan''" and c=example_contract
        and fnName="''setValue''" and frag="\<lparr>frag_name = ''setValue'', frag_constant = False\<rparr>"
        and nd="node_with never_mined" and w=empty_world and args="[JNum 5]"
        and tx=example_tx and hsh="JStr ''0xabc''" and fuel=0]
    by (simp add: example_facts never_mined_def again)
qed

subsection \<open>Results that are not transactions\<close>

lemma not_transaction_without_wait:
  assumes "tx \<noteq> JNull" and "\<not> has_wait tx"
  shows "not_transaction tx = Inr True"
  using assms by (cases tx) (auto simp: not_transaction_def has_wait_def)

text \<open>
  C6. The methods that ethers attaches to a handle resolve to a transaction response or
  to decoded values, never to \<^verbatim>\<open>null\<close> (what the wrapper does with \<^verbatim>\<open>null\<close>
  is C10). For every such submission result that carries no \<^verbatim>\<open>wait\<close> function
  (\<^verbatim>\<open>undefined\<close>, a boolean, a number, a string, a function, an object without a
  \<^verbatim>\<open>wait\<close> function), the wrapped method returns that result at once: the submission
  is its only effect, no sleep precedes the return and no receipt is queried, whatever
  number of rounds is allowed.
\<close>

theorem result_without_wait_returned_at_once:
  assumes "getFunction (interface c) fnName = Inr frag"
    and "fn nd (length (submissions w)) fnName args (resolved_gasPrice h frag) = Inr tx"
    and "tx \<noteq> JNull"
    and "\<not> has_wait tx"
  shows "wrapped fuel h c nd fnName args w =
           (Returned tx, submit fnName args (resolved_gasPrice h frag) w) \<and>
         sleeps (snd (wrapped fuel h c nd fnName args w)) = sleeps w \<and>
         polled (snd (wrapped fuel h c nd fnName args w)) = polled w"
  using wrapped_plain [OF assms(1,2) not_transaction_without_wait [OF assms(3,4)], of fuel]
  by simp

theorem result_without_wait_returned_at_once_witness:
  "getFunction (interface example_contract) ''getValue'' =
     Inr \<lparr>frag_name = ''getValue'', frag_constant = True\<rparr> \<and>
   fn node_value 0 ''getValue'' [] (Some 0) = Inr (JBool True) \<and>
   JBool True \<noteq> JNull \<and> \<not> has_wait (JBool True) \<and>
   wrapped 9 (hre_on ''goerli'') example_contract node_value ''getValue'' [] empty_world =
     (Returned (JBool True),
      \<lparr>submissions = [\<lparr>sub_fnName = ''getValue'', sub_args = [], sub_gasPrice = Some 0\<rparr>],
       sleeps = [], polled = [], logs = []\<rparr>)"
  using result_without_wait_returned_at_once [where c=example_contract
      and fnName="''getValue''" and frag="\<lparr>frag_name = ''getValue'', frag_constant = True\<rparr>"
      and nd=node_value and w=empty_world and args="[]" and h="hre_on ''goerli''"
      and tx="JBool True" and fuel=9]
  by (simp add: example_facts node_value_def has_wait_def submit_def empty_world_def)

subsection \<open>A missing gas price\<close>

text \<open>
  C7. When there is no \<^verbatim>\<open>deployConfig\<close>, so that reading the gas price throws, and the
  method is not constant: every submission of the call is made with \<^verbatim>\<open>gasPrice\<close>
  undefined, and at least one is made; the call never throws the error of the failed
  read; and when the submission resolves to a value that is not a transaction, the call
  returns that value.
\<close>

theorem missing_gas_price_still_submits:
  fixes fuel h c nd fnName args w
  defines "run \<equiv> wrapped fuel h c nd fnName args w"
  assumes "deployConfig h = None"
    and "getFunction (interface c) fnName = Inr frag"
    and "\<not> frag_constant frag"
  shows "read_gasPrice h = Inl (TypeError JUndefined ''gasPrice'') \<and>
         (\<exists>n. submissions (snd run) =
            submissions w @
            replicate (Suc n) \<lparr>sub_fnName = fnName, sub_args = args, sub_gasPrice = None\<rparr>) \<and>
         fst run \<noteq> Thrown (TypeError JUndefined ''gasPrice'') \<and>
         (\<forall>v. fn nd (length (submissions w)) fnName args None = Inr v \<and>
              not_transaction v = Inr True \<longrightarrow>
              run = (Returned v,
                     w\<lparr>submissions := submissions w @
                        [\<lparr>sub_fnName = fnName, sub_args = args, sub_gasPrice = None\<rparr>]\<rparr>))"
proof -
  have g: "resolved_gasPrice h frag = None"
    using assms(2,4) by (simp add: resolved_gasPrice_def configured_gasPrice_def read_gasPrice_def)
  have "read_gasPrice h = Inl (TypeError JUndefined ''gasPrice'')"
    using assms(2) by (simp add: read_gasPrice_def)
  moreover have "\<exists>n. submissions (snd run) =
            submissions w @
            replicate (Suc n) \<lparr>sub_fnName = fnName, sub_args = args, sub_gasPrice = None\<rparr>"
    using wrapped_submissions [OF assms(3), of fuel h nd args w] unfolding run_def g .
  moreover have "fst run \<noteq> Thrown (TypeError JUndefined ''gasPrice'')"
    unfolding run_def by (rule wrapped_thrown)
  moreover have "run = (Returned v,
                     w\<lparr>submissions := submissions w @
                        [\<lparr>sub_fnName = fnName, sub_args = args, sub_gasPrice = None\<rparr>]\<rparr>)"
    if "fn nd (length (submissions w)) fnName args None = Inr v" "not_transaction v = Inr True"
    for v
    using wrapped_plain [OF assms(3), of nd w args h v fuel] that
    unfolding run_def g by (simp add: submit_def)
  ultimately show ?thesis by blast
qed

theorem missing_gas_price_still_submits_witness:
  "deployConfig hre_without_config = None \<and>
   getFunction (interface example_contract) ''setValue'' =
     Inr \<lparr>frag_name = ''setValue'', frag_constant = False\<rparr> \<and>
   wrapped 5 hre_without_config example_contract node_value ''setValue'' [JNum 5] empty_world =
     (Returned (JBool True),
      \<lparr>submissions = [\<lparr>sub_fnName = ''setValue'', sub_args = [JNum 5], sub_gasPrice = None\<rparr>],
       sleeps = [], polled = [], logs = []\<rparr>)"
  using missing_gas_price_still_submits [where h=hre_without_config and c=example_contract
      and fnName="''setValue''" and frag="\<lparr>frag_name = ''setValue'', frag_constant = False\<rparr>"
      and fuel=5 and nd=node_value and args="[JNum 5]" and w=empty_world]
  by (simp add: example_facts hre_without_config_def node_value_def not_transaction_def
        empty_world_def)

subsection \<open>The handle returned by getAdvancedContract\<close>















text \<open>
  With the same interface and no signer, the constructor, running under the closure of
  line 88, puts the method in the place of the \<^verbatim>\<open>null\<close> signer, and the loop then
  puts its replacement there: the returned handle has a function for a signer.
\<close>

lemma signer_named_function_replaces_null_signer:
  "getAdvancedContract Native signer_named_read_only_contract =
     (Inr \<lparr>address = ''0x4200000000000000000000000000000000000007'',
           interface = [\<lparr>frag_name = ''signer'', frag_constant = True\<rparr>],
           signer = Replaced (Wrapper ''signer'' (Original ''signer'')),
           provider = Value ''rpc'', methods = [], writable = True\<rparr>, Native)"
  by (simp add: signer_named_read_only_contract_def function_keys_def
        getAdvancedContract_def define_method_def get_member_def object_members_def
        signer_or_provider_def override_def bind_member_def set_function_def own_property_def
        member_names_def)

subsection \<open>The round counter\<close>

text \<open>
  C9. In the loop started with counter \<open>t\<close>: as long as \<open>t\<close> plus the number of
  receipt queries that yielded no receipt at all is at most 120 (or the network is not
  kovan), no round has resubmitted (no submission, no log line); and a run still polling
  holds exactly that sum in its counter, so a query that yields an under-confirmed
  receipt does not advance it. Resubmission therefore needs more than 120 absent
  receipts, and a transaction that is mined but stays under-confirmed never triggers it.
\<close>

theorem counter_counts_absent_receipts_only:
  fixes fuel h c nd fnName args tx t w
  defines "run \<equiv> poll_loop fuel h c nd fnName args tx t w"
  assumes "get_prop tx ''hash'' = Inr hsh"
    and "network_name h \<noteq> ''kovan'' \<or>
         t + absent_count nd hsh (length (polled w)) fuel \<le> maxTimeout"
  shows "submissions (snd run) = submissions w \<and>
         logs (snd run) = logs w \<and>
         (\<forall>t'. fst run = Polling t' \<longrightarrow>
               t' = t + absent_count nd hsh (length (polled w)) fuel)"
  unfolding run_def using assms(2,3) by (rule poll_loop_counter)

theorem counter_counts_absent_receipts_only_witness:
  "get_prop example_tx ''hash'' = Inr (JStr ''0xabc'') \<and>
   network_name (hre_on ''kovan'') = ''kovan'' \<and>
   absent_count (node_with under_confirmed) (JStr ''0xabc'') 0 1000 = 0 \<and>
   submissions (snd (poll_loop 1000 (hre_on ''kovan'') example_contract
       (node_with under_confirmed) ''setValue'' [JNum 5] example_tx 0 empty_world)) = [] \<and>
   logs (snd (poll_loop 1000 (hre_on ''kovan'') example_contract
       (node_with under_confirmed) ''setValue'' [JNum 5] example_tx 0 empty_world)) = []"
proof -
  have a: "absent_count (node_with under_confirmed) (JStr ''0xabc'') 0 1000 = 0"
    by (rule absent_count_none) (simp add: example_facts under_confirmed_def)
  show ?thesis
    using counter_counts_absent_receipts_only [where tx=example_tx and hsh="JStr ''0xabc''"
        and t=0 and nd="node_with under_confirmed" and w=empty_world and fuel=1000
        and h="hre_on ''kovan''" and c=example_contract and fnName="''setValue''"
        and args="[JNum 5]"]
    by (simp add: example_facts a)
qed

subsection \<open>A submission that resolves to null\<close>

text \<open>
  C10. When the underlying submission resolves to \<^verbatim>\<open>null\<close>, the wrapped method throws
  the TypeError of reading \<^verbatim>\<open>wait\<close> of \<^verbatim>\<open>null\<close>; it does not return \<^verbatim>\<open>null\<close>.
  The submission has been made; no sleep and no receipt query follows.
\<close>

theorem null_submission_result_throws:
  assumes "getFunction (interface c) fnName = Inr frag"
    and "fn nd (length (submissions w)) fnName args (resolved_gasPrice h frag) = Inr JNull"
  shows "wrapped fuel h c nd fnName args w =
           (Thrown (TypeError JNull ''wait''), submit fnName args (resolved_gasPrice h frag) w)
         \<and> fst (wrapped fuel h c nd fnName args w) \<noteq> Returned JNull"
  using assms
  by (cases rule: wrapped_cases [where c=c and fnName=fnName and fuel=fuel and h=h and nd=nd
        and args=args and w=w])
     (auto simp: not_transaction_def)

theorem null_submission_result_throws_witness:
  "getFunction (interface example_contract) ''setValue''
     = Inr \<lparr>frag_name = ''setValue'', frag_constant = False\<rparr> \<and>
   fn node_null 0 ''setValue'' [JNum 5] (Some 7) = Inr JNull \<and>
   wrapped 9 (hre_on ''goerli'') example_contract node_null ''setValue'' [JNum 5] empty_world =
     (Thrown (TypeError JNull ''wait''),
      \<lparr>submissions = [\<lparr>sub_fnName = ''setValue'', sub_args = [JNum 5], sub_gasPrice = Some 7\<rparr>],
       sleeps = [], polled = [], logs = []\<rparr>)"
  using null_submission_result_throws [of example_contract "''setValue''"
      "\<lparr>frag_name = ''setValue'', frag_constant = False\<rparr>" node_null empty_world "[JNum 5]"
      "hre_on ''goerli''" 9]
  by (simp add: example_contract_def getFunction_def node_null_def empty_world_def hre_on_def
        resolved_gasPrice_def configured_gasPrice_def read_gasPrice_def submit_def)

end
